theory Spec2Isabelle
  imports Main "HOL-Library.Multiset" "HOL-Library.Sublist"
begin

section \<open>Burned-area pipeline: a shallow embedding of the orchestration scripts\<close>

text \<open>
  The development follows three Python 2 modules of the repository:
  \<^verbatim>\<open>scripts/do_burned_area.py\<close> (the pool worker, the per-scene job and the
  end-to-end driver), \<^verbatim>\<open>scripts/boosted_regression_tree/generate_boosted_regression_config.py\<close>
  and \<^verbatim>\<open>scripts/boosted_regression_tree/do_boosted_regression.py\<close>.
  Python values are modelled as follows: \<open>str\<close> is \<open>string\<close>, \<open>int\<close> is \<open>int\<close>, an
  uncaught exception or a call that never returns is the left summand of a sum type,
  the file system and the working directory are an explicit state.
\<close>

subsection \<open>Status codes and abnormal outcomes\<close>

text \<open>
  \<^verbatim>\<open>ERROR = 1\<close> and \<^verbatim>\<open>SUCCESS = 0\<close> are bound at the top of
  \<^verbatim>\<open>do_burned_area.py\<close> (lines 20-21) and of
  \<^verbatim>\<open>generate_boosted_regression_config.py\<close> (lines 10-11).
  \<^verbatim>\<open>do_boosted_regression.py\<close> uses both names (lines 85, 103, 119, 136, 142) and
  binds neither: its only top-level bindings are the imports of lines 2-8 and the
  class. Evaluating either name in that module raises \<^verbatim>\<open>NameError\<close>.
\<close>

definition ERROR :: int where
  "ERROR = 1"

definition SUCCESS :: int where
  "SUCCESS = 0"

datatype abort = ValueError | IOError | OSError | TypeError | NameError | NeverReturns

subsection \<open>Python string operations used by the scripts\<close>

definition newline :: char where
  "newline = CHR 0x0A"

definition slash :: char where
  "slash = CHR ''/''"

text \<open>\<^verbatim>\<open>s[i:j]\<close> for \<open>0 \<le> i \<le> j\<close>: never raises, shorter when \<open>s\<close> is short.\<close>

definition slice :: "nat \<Rightarrow> nat \<Rightarrow> string \<Rightarrow> string" where
  "slice i j s = take (j - i) (drop i s)"

text \<open>\<^verbatim>\<open>s.rstrip(chars)\<close>.\<close>

definition rstrip :: "char list \<Rightarrow> string \<Rightarrow> string" where
  "rstrip cs s = rev (dropWhile (\<lambda>c. c \<in> set cs) (rev s))"

text \<open>\<^verbatim>\<open>s.replace(old, new)\<close>: non-overlapping occurrences, left to right.\<close>

function replace_str :: "string \<Rightarrow> string \<Rightarrow> string \<Rightarrow> string" where
  "replace_str old new s =
     (if old = [] then new @ concat (map (\<lambda>c. c # new) s)
      else if s = [] then []
      else if take (length old) s = old
        then new @ replace_str old new (drop (length old) s)
      else hd s # replace_str old new (tl s))"
  by pat_completeness auto
termination
  by (relation "measure (\<lambda>(old, new, s). length s)") auto

declare replace_str.simps [simp del]

text \<open>\<^verbatim>\<open>os.path.basename\<close> and \<^verbatim>\<open>os.path.dirname\<close> of \<^verbatim>\<open>posixpath\<close>.\<close>

definition basename :: "string \<Rightarrow> string" where
  "basename p = rev (takeWhile (\<lambda>c. c \<noteq> slash) (rev p))"

definition dirname :: "string \<Rightarrow> string" where
  "dirname p =
     (let head = rev (dropWhile (\<lambda>c. c \<noteq> slash) (rev p))
      in if head \<noteq> [] \<and> head \<noteq> replicate (length head) slash
         then rstrip [slash] head else head)"

text \<open>
  \<^verbatim>\<open>int(s)\<close> on a string: surrounding white space is dropped, one sign is allowed,
  and at least one decimal digit must follow and nothing else; anything else raises
  \<^verbatim>\<open>ValueError\<close>.
\<close>

definition is_space :: "char \<Rightarrow> bool" where
  "is_space c = (c \<in> set [CHR '' '', CHR 0x09, CHR 0x0A, CHR 0x0B, CHR 0x0C, CHR 0x0D])"

definition is_digit :: "char \<Rightarrow> bool" where
  "is_digit c = ((48::nat) \<le> of_char c \<and> of_char c \<le> (57::nat))"

definition digit_val :: "char \<Rightarrow> int" where
  "digit_val c = int (of_char c) - 48"

definition digits_val :: "string \<Rightarrow> int" where
  "digits_val ds = foldl (\<lambda>a c. 10 * a + digit_val c) 0 ds"

definition strip :: "string \<Rightarrow> string" where
  "strip s = rev (dropWhile is_space (rev (dropWhile is_space s)))"

definition py_int :: "string \<Rightarrow> abort + int" where
  "py_int s =
     (let t = strip s;
          neg = (t \<noteq> [] \<and> hd t = CHR ''-'');
          ds = (if t \<noteq> [] \<and> (hd t = CHR ''-'' \<or> hd t = CHR ''+'') then tl t else t)
      in if ds \<noteq> [] \<and> list_all is_digit ds
         then Inr (if neg then - digits_val ds else digits_val ds)
         else Inl ValueError)"

subsection \<open>Scene inventory: path, row and the year range (lines 350-371)\<close>

text \<open>
  The scene name of one line of the scene list:
  \<^verbatim>\<open>os.path.basename(line.rstrip('\n')).replace('.xml', '')\<close>.
\<close>

definition scene_name_of :: "string \<Rightarrow> string" where
  "scene_name_of line = replace_str ''.xml'' '''' (basename (rstrip [newline] line))"

text \<open>
  The loop over \<^verbatim>\<open>range(num_scenes)\<close>. The loop state is the pair \<open>(path, row)\<close>
  (unbound before the first iteration), \<open>start_year\<close> and \<open>end_year\<close>.
\<close>

fun scan_scenes ::
  "nat \<Rightarrow> string list \<Rightarrow> (int \<times> int) option \<Rightarrow> int \<Rightarrow> int
     \<Rightarrow> abort + ((int \<times> int) option \<times> int \<times> int)" where
  "scan_scenes i [] pr start_year end_year = Inr (pr, start_year, end_year)"
| "scan_scenes i (line # rest) pr start_year end_year =
     (let scene_name = scene_name_of line in
      case (if i = 0
            then (case py_int (slice 3 6 scene_name) of
                    Inl e \<Rightarrow> Inl e
                  | Inr path \<Rightarrow>
                      (case py_int (slice 6 9 scene_name) of
                         Inl e \<Rightarrow> Inl e
                       | Inr row \<Rightarrow> Inr (Some (path, row))))
            else Inr pr) of
        Inl e \<Rightarrow> Inl e
      | Inr pr' \<Rightarrow>
          (case py_int (slice 9 13 scene_name) of
             Inl e \<Rightarrow> Inl e
           | Inr year \<Rightarrow>
               scan_scenes (Suc i) rest pr'
                 (if year < start_year then year else start_year)
                 (if year > end_year then year else end_year)))"

definition resolve_stack :: "string list \<Rightarrow> abort + ((int \<times> int) option \<times> int \<times> int)" where
  "resolve_stack sr_list = scan_scenes 0 sr_list None 9999 0"

subsection \<open>Paths (\<^verbatim>\<open>posixpath\<close>)\<close>

fun split_on :: "char \<Rightarrow> string \<Rightarrow> string list" where
  "split_on d [] = [[]]"
| "split_on d (c # cs) =
     (if c = d then [] # split_on d cs
      else (case split_on d cs of
              [] \<Rightarrow> [[c]]
            | w # ws \<Rightarrow> (c # w) # ws))"

fun join_with :: "string \<Rightarrow> string list \<Rightarrow> string" where
  "join_with sep [] = []"
| "join_with sep [w] = w"
| "join_with sep (w # ws) = w @ sep @ join_with sep ws"

definition isabs :: "string \<Rightarrow> bool" where
  "isabs p = (p \<noteq> [] \<and> hd p = slash)"

definition join :: "string \<Rightarrow> string \<Rightarrow> string" where
  "join a b =
     (if isabs b then b
      else if a = [] \<or> last a = slash then a @ b
      else a @ [slash] @ b)"

text \<open>
  One step of the component loop of \<^verbatim>\<open>normpath\<close>; \<open>rooted\<close> is
  \<^verbatim>\<open>initial_slashes\<close> read as a truth value.
\<close>

definition norm_step :: "bool \<Rightarrow> string list \<Rightarrow> string \<Rightarrow> string list" where
  "norm_step rooted new_comps name =
     (if name = [] \<or> name = ''.'' then new_comps
      else if name \<noteq> ''..'' \<or> (\<not> rooted \<and> new_comps = [])
                \<or> (new_comps \<noteq> [] \<and> last new_comps = ''..'')
        then new_comps @ [name]
      else if new_comps \<noteq> [] then butlast new_comps
      else new_comps)"

definition normpath :: "string \<Rightarrow> string" where
  "normpath p =
     (if p = [] then ''.''
      else
        let initial_slashes =
              (if take 2 p = [slash, slash] \<and> take 3 p \<noteq> [slash, slash, slash] then 2
               else if isabs p then 1 else (0::nat));
            comps = foldl (norm_step (initial_slashes \<noteq> 0)) [] (split_on slash p);
            q = replicate initial_slashes slash @ join_with [slash] comps
        in if q = [] then ''.'' else q)"

definition abspath :: "string \<Rightarrow> string \<Rightarrow> string" where
  "abspath cur p = normpath (if isabs p then p else join cur p)"

subsection \<open>The process state: file system, working directory, call log\<close>

text \<open>
  A directory carries the mode it was made with, a file its text. Nodes are keyed by
  normalised absolute path. The log records, in order, the calls that leave the
  process: directory changes, directory creation, file removal, the external
  executable, shell commands, and the four subsystems the driver delegates to.
\<close>

datatype node = Dir nat | File string

datatype event =
    Chdir string
  | Makedirs string nat
  | Remove string
  | Exec "string list"
  | System string
  | ProcessStack string int bool
  | PoolStart "string list" int
  | BurnThreshold string string string int int int
  | AnnualBurnSummaries string string string string int int

record world =
  nodes :: "string \<rightharpoonup> node"
  cwd :: string
  trace :: "event list"

text \<open>
  What the scripts cannot determine themselves is supplied by the environment: access
  rights, failures of \<^verbatim>\<open>mkdir\<close>, the random part of temporary names, the
  \<^verbatim>\<open>BIN\<close> variable, the behaviour of the external executable, of the shell and of
  the subsystems that live outside these three modules, and the order in which the
  worker processes of a pool are scheduled.
\<close>

datatype mkfault = Denied | Raced

datatype exe_outcome = Exited int string | NotStarted

record env =
  writable :: "string \<Rightarrow> bool"
  mkdir_fault :: "string \<Rightarrow> mkfault option"
  temp_candidates :: "string list"
  environ_BIN :: "string option"
  check_output :: "string list \<Rightarrow> string \<Rightarrow> exe_outcome"
  os_system :: "string \<Rightarrow> string \<Rightarrow> (string \<rightharpoonup> node) \<Rightarrow> (string \<rightharpoonup> node)"
  get_model_name :: "int \<Rightarrow> int \<Rightarrow> string"
  processStack ::
    "string \<Rightarrow> int \<Rightarrow> bool \<Rightarrow> string \<Rightarrow> (string \<rightharpoonup> node) \<Rightarrow> int \<times> (string \<rightharpoonup> node)"
  runBurnThreshold ::
    "string \<Rightarrow> string \<Rightarrow> string \<Rightarrow> int \<Rightarrow> int \<Rightarrow> int \<Rightarrow> string \<Rightarrow> (string \<rightharpoonup> node)
       \<Rightarrow> int \<times> (string \<rightharpoonup> node)"
  runAnnualBurnSummaries ::
    "string \<Rightarrow> string \<Rightarrow> string \<Rightarrow> string \<Rightarrow> int \<Rightarrow> int \<Rightarrow> string \<Rightarrow> (string \<rightharpoonup> node)
       \<Rightarrow> int \<times> (string \<rightharpoonup> node)"
  schedule :: "(nat \<times> bool) list"

definition os_path_exists :: "world \<Rightarrow> string \<Rightarrow> bool" where
  "os_path_exists w p = (p \<noteq> [] \<and> nodes w (abspath (cwd w) p) \<noteq> None)"

definition os_path_isfile :: "world \<Rightarrow> string \<Rightarrow> bool" where
  "os_path_isfile w p =
     (p \<noteq> [] \<and> (case nodes w (abspath (cwd w) p) of Some (File t) \<Rightarrow> True | _ \<Rightarrow> False))"

definition os_path_isdir :: "world \<Rightarrow> string \<Rightarrow> bool" where
  "os_path_isdir w p =
     (p \<noteq> [] \<and> (case nodes w (abspath (cwd w) p) of Some (Dir m) \<Rightarrow> True | _ \<Rightarrow> False))"

definition os_getcwd :: "world \<Rightarrow> abort + string" where
  "os_getcwd w = (if os_path_isdir w (cwd w) then Inr (cwd w) else Inl OSError)"

definition os_chdir :: "string \<Rightarrow> world \<Rightarrow> (abort + unit) \<times> world" where
  "os_chdir p w =
     (if os_path_isdir w p
      then (Inr (), w\<lparr>cwd := abspath (cwd w) p,
                       trace := trace w @ [Chdir (abspath (cwd w) p)]\<rparr>)
      else (Inl OSError, w))"

text \<open>
  The directories on the way to a normalised absolute path, outermost first.
  \<^verbatim>\<open>os.makedirs\<close> makes those that are missing, and the leaf.
\<close>

definition ancestors :: "string \<Rightarrow> string list" where
  "ancestors t =
     (let comps = filter (\<lambda>c. c \<noteq> []) (split_on slash t)
      in map (\<lambda>k. slash # join_with [slash] (take k comps)) [1..<Suc (length comps)])"

definition mk_dirs :: "string list \<Rightarrow> nat \<Rightarrow> (string \<rightharpoonup> node) \<Rightarrow> (string \<rightharpoonup> node)" where
  "mk_dirs ds mode nd = foldl (\<lambda>m d. if m d = None then m(d \<mapsto> Dir mode) else m) nd ds"

text \<open>
  \<^verbatim>\<open>os.makedirs(p, mode)\<close>: raises when the leaf exists, when an ancestor is a file,
  or when the environment refuses; \<open>Raced\<close> is the refusal caused by another process
  that made the directory in the meantime.
\<close>

definition os_makedirs :: "env \<Rightarrow> string \<Rightarrow> nat \<Rightarrow> world \<Rightarrow> (abort + unit) \<times> world" where
  "os_makedirs E p mode w =
     (let t = abspath (cwd w) p in
      case mkdir_fault E t of
        Some Denied \<Rightarrow> (Inl OSError, w)
      | Some Raced \<Rightarrow>
          (Inl OSError, w\<lparr>nodes := (mk_dirs (ancestors t) mode (nodes w))(t \<mapsto> Dir mode)\<rparr>)
      | None \<Rightarrow>
          if p = [] \<or> nodes w t \<noteq> None
             \<or> list_ex (\<lambda>d. case nodes w d of Some (File x) \<Rightarrow> True | _ \<Rightarrow> False) (ancestors t)
          then (Inl OSError, w)
          else (Inr (), w\<lparr>nodes := (mk_dirs (ancestors t) mode (nodes w))(t \<mapsto> Dir mode),
                            trace := trace w @ [Makedirs t mode]\<rparr>))"

definition os_remove :: "string \<Rightarrow> world \<Rightarrow> (abort + unit) \<times> world" where
  "os_remove p w =
     (if os_path_isfile w p
      then (Inr (), w\<lparr>nodes := (nodes w)(abspath (cwd w) p := None),
                       trace := trace w @ [Remove (abspath (cwd w) p)]\<rparr>)
      else (Inl OSError, w))"

text \<open>\<^verbatim>\<open>f = open(p, 'r'); lines = f.readlines(); f.close()\<close>.\<close>

fun split_lines :: "string \<Rightarrow> string list" where
  "split_lines [] = []"
| "split_lines (c # cs) =
     (if c = newline then [c] # split_lines cs
      else (case split_lines cs of
              [] \<Rightarrow> [[c]]
            | l # ls \<Rightarrow> (c # l) # ls))"

definition readlines :: "world \<Rightarrow> string \<Rightarrow> abort + string list" where
  "readlines w p =
     (if p = [] then Inl IOError
      else case nodes w (abspath (cwd w) p) of
             Some (File t) \<Rightarrow> Inr (split_lines t)
           | _ \<Rightarrow> Inl IOError)"

text \<open>
  \<^verbatim>\<open>f = open(p, 'w'); f.write(...); ...; f.close()\<close> with the whole text written:
  the file is created or truncated; \<^verbatim>\<open>open\<close> raises when \<open>p\<close> is a directory, or its
  directory is missing or refuses writing.
\<close>

definition write_file :: "env \<Rightarrow> string \<Rightarrow> string \<Rightarrow> world \<Rightarrow> (abort + unit) \<times> world" where
  "write_file E p text w =
     (let t = abspath (cwd w) p in
      if p = [] \<or> os_path_isdir w p \<or> \<not> os_path_isdir w (dirname t) \<or> \<not> writable E (dirname t)
      then (Inl IOError, w)
      else (Inr (), w\<lparr>nodes := (nodes w)(t \<mapsto> File text)\<rparr>))"

definition os_access_W_OK :: "env \<Rightarrow> world \<Rightarrow> string \<Rightarrow> bool" where
  "os_access_W_OK E w p = (os_path_exists w p \<and> writable E (abspath (cwd w) p))"

text \<open>
  \<^verbatim>\<open>t = tempfile.NamedTemporaryFile(mode='w', prefix=.., suffix=.., dir=.., delete=True);
  t.close(); t.name\<close>: the file is made under a name that is not in use and removed
  again by \<^verbatim>\<open>close\<close>, so only the name remains.
\<close>

definition closed_temp_name :: "env \<Rightarrow> string \<Rightarrow> string \<Rightarrow> string \<Rightarrow> world \<Rightarrow> abort + string" where
  "closed_temp_name E pre suf dir w =
     (if \<not> os_path_isdir w dir \<or> \<not> writable E (abspath (cwd w) dir) then Inl OSError
      else case find (\<lambda>n. \<not> os_path_exists w n)
                  (map (\<lambda>r. abspath (cwd w) (join dir (pre @ r @ suf))) (temp_candidates E)) of
             None \<Rightarrow> Inl IOError
           | Some n \<Rightarrow> Inr n)"

definition mode_0755 :: nat where
  "mode_0755 = 7 * 64 + 5 * 8 + 5"

subsection \<open>\<^verbatim>\<open>BoostedRegressionConfig.runGenerateConfig\<close> (lines 136-199)\<close>

text \<open>The six \<^verbatim>\<open>config_handler.write (config_line + '\n')\<close> calls, in order.\<close>

definition config_lines ::
  "string \<Rightarrow> string \<Rightarrow> string \<Rightarrow> string \<Rightarrow> string \<Rightarrow> string list" where
  "config_lines input_base_file input_mask_file seasonal_sum_dir output_file model_file =
     [''INPUT_BASE_FILE='' @ input_base_file,
      ''INPUT_MASK_FILE='' @ input_mask_file,
      ''INPUT_FILL_VALUE=-9999'',
      ''SEASONAL_SUMMARIES_DIR='' @ seasonal_sum_dir,
      ''OUTPUT_IMG_FILE='' @ output_file,
      ''LOAD_MODEL_XML='' @ model_file]"

definition runGenerateConfig ::
  "env \<Rightarrow> string \<Rightarrow> string \<Rightarrow> string \<Rightarrow> string \<Rightarrow> string \<Rightarrow> string \<Rightarrow> world
     \<Rightarrow> (abort + int) \<times> world" where
  "runGenerateConfig E config_file seasonal_sum_dir input_base_file input_mask_file
       output_dir model_file w =
     (if \<not> os_path_exists w seasonal_sum_dir then (Inr ERROR, w)
      else if \<not> os_path_exists w (input_base_file @ ''_sr_band1.img'') then (Inr ERROR, w)
      else if \<not> os_path_exists w input_mask_file then (Inr ERROR, w)
      else if \<not> os_path_exists w model_file then (Inr ERROR, w)
      else if \<not> os_path_exists w output_dir then (Inr ERROR, w)
      else
        let base_file = basename input_base_file;
            output_file = output_dir @ ''/'' @ base_file @ ''_burn_probability.img'';
            text = concat (map (\<lambda>config_line. config_line @ [newline])
                     (config_lines input_base_file input_mask_file seasonal_sum_dir
                        output_file model_file))
        in case write_file E config_file text w of
             (Inl e, w') \<Rightarrow> (Inl e, w')
           | (Inr u, w') \<Rightarrow> (Inr SUCCESS, w'))"

subsection \<open>\<^verbatim>\<open>BoostedRegression.runBoostedRegression\<close> (lines 87-142)\<close>

text \<open>
  The integer-valued global names of \<^verbatim>\<open>do_boosted_regression.py\<close>: there are none.
  \<^verbatim>\<open>return NAME\<close> looks the name up in the module's globals and raises
  \<^verbatim>\<open>NameError\<close> when it is not bound.
\<close>

definition do_boosted_regression_globals :: "string \<rightharpoonup> int" where
  "do_boosted_regression_globals = Map.empty"

definition return_global :: "(string \<rightharpoonup> int) \<Rightarrow> string \<Rightarrow> world \<Rightarrow> (abort + int) \<times> world" where
  "return_global G name w =
     (case G name of
        None \<Rightarrow> (Inl NameError, w)
      | Some v \<Rightarrow> (Inr v, w))"

text \<open>\<^verbatim>\<open>os.chdir (mydir)\<close> followed by \<^verbatim>\<open>return NAME\<close> (lines 135-136, 141-142).\<close>

definition chdir_return_global ::
  "(string \<rightharpoonup> int) \<Rightarrow> string \<Rightarrow> string \<Rightarrow> world \<Rightarrow> (abort + int) \<times> world" where
  "chdir_return_global G mydir name w =
     (case os_chdir mydir w of
        (Inl e, w') \<Rightarrow> (Inl e, w')
      | (Inr u, w') \<Rightarrow> return_global G name w')"

definition runBoostedRegression ::
  "env \<Rightarrow> string \<Rightarrow> bool \<Rightarrow> world \<Rightarrow> (abort + int) \<times> world" where
  "runBoostedRegression E config_file usebin w =
     (case (if usebin
            then (case environ_BIN E of
                    None \<Rightarrow> Inl TypeError
                  | Some b \<Rightarrow> Inr (b @ ''/''))
            else Inr []) of
        Inl e \<Rightarrow> (Inl e, w)
      | Inr bin_dir \<Rightarrow>
          if \<not> os_path_isfile w config_file
          then return_global do_boosted_regression_globals ''ERROR'' w
          else
            (case os_getcwd w of
               Inl e \<Rightarrow> (Inl e, w)
             | Inr mydir \<Rightarrow>
                 let configdir = dirname (abspath (cwd w) config_file) in
                 if \<not> os_access_W_OK E w configdir
                 then return_global do_boosted_regression_globals ''ERROR'' w
                 else
                   (case os_chdir configdir w of
                      (Inl e, w1) \<Rightarrow> (Inl e, w1)
                    | (Inr u, w1) \<Rightarrow>
                        let cmdstr = bin_dir @ ''predict_burned_area --config_file ''
                                       @ config_file @ '' --verbose'';
                            cmdlist = split_on CHR '' '' cmdstr;
                            w2 = w1\<lparr>trace := trace w1 @ [Exec cmdlist]\<rparr>
                        in (case check_output E cmdlist (cwd w2) of
                              NotStarted \<Rightarrow> (Inl OSError, w2)
                            | Exited code output \<Rightarrow>
                                if code \<noteq> 0
                                then chdir_return_global do_boosted_regression_globals
                                       mydir ''ERROR'' w2
                                else chdir_return_global do_boosted_regression_globals
                                       mydir ''SUCCESS'' w2))))"

subsection \<open>\<^verbatim>\<open>BurnedArea.sceneBoostedRegression\<close> (lines 108-161)\<close>

text \<open>
  The attributes \<^verbatim>\<open>self.output_dir\<close>, \<^verbatim>\<open>self.model_file\<close> and
  \<^verbatim>\<open>self.config_file\<close> that the driver sets before the workers start.
\<close>

record stack_object =
  self_output_dir :: string
  self_model_file :: string
  self_config_file :: string

text \<open>
  Lines 117-128: \<open>True\<close> when the job may go on. The bare \<^verbatim>\<open>except\<close> catches every
  failure of \<^verbatim>\<open>os.makedirs\<close> and looks again.
\<close>

definition ensure_config_dir :: "env \<Rightarrow> string \<Rightarrow> world \<Rightarrow> bool \<times> world" where
  "ensure_config_dir E config_dir w =
     (if \<not> os_path_exists w config_dir
      then (case os_makedirs E config_dir mode_0755 w of
              (Inr u, w1) \<Rightarrow> (True, w1)
            | (Inl e, w1) \<Rightarrow> (os_path_exists w1 config_dir, w1))
      else (True, w))"

definition sceneBoostedRegression ::
  "env \<Rightarrow> stack_object \<Rightarrow> string \<Rightarrow> world \<Rightarrow> (abort + int) \<times> world" where
  "sceneBoostedRegression E self xml_file w =
     (let dir_name = dirname xml_file;
          base_name = basename xml_file;
          config_dir = dir_name @ ''/config''
      in case ensure_config_dir E config_dir w of
           (False, w1) \<Rightarrow> (Inr ERROR, w1)
         | (True, w1) \<Rightarrow>
             (case closed_temp_name E ''temp'' (self_config_file self) config_dir w1 of
                Inl e \<Rightarrow> (Inl e, w1)
              | Inr config_file \<Rightarrow>
                  let base_file = dir_name @ ''/refl/'' @ replace_str ''.xml'' [] base_name;
                      mask_file = dir_name @ ''/mask/''
                                    @ replace_str ''.xml'' ''_mask.img'' base_name
                  in (case runGenerateConfig E config_file dir_name base_file mask_file
                             (self_output_dir self) (self_model_file self) w1 of
                        (Inl e, w2) \<Rightarrow> (Inl e, w2)
                      | (Inr status, w2) \<Rightarrow>
                          if status \<noteq> SUCCESS then (Inr ERROR, w2)
                          else
                            (case runBoostedRegression E config_file False w2 of
                               (Inl e, w3) \<Rightarrow> (Inl e, w3)
                             | (Inr status', w3) \<Rightarrow>
                                 if status' \<noteq> SUCCESS then (Inr ERROR, w3)
                                 else
                                   (case os_remove config_file w3 of
                                      (Inl e, w4) \<Rightarrow> (Inl e, w4)
                                    | (Inr u, w4) \<Rightarrow> (Inr SUCCESS, w4))))))"

subsection \<open>The regression worker pool (\<^verbatim>\<open>parallelSceneRegressionWorker.run\<close>, lines 46-64)\<close>

text \<open>
  A worker process is between two iterations of its loop (\<open>Idle\<close>), inside one with a
  task taken off the work queue (\<open>Busy\<close>), or has left \<^verbatim>\<open>run\<close> (\<open>Gone\<close>). Each
  process has a working directory of its own, inherited from the driver when it was
  started; the queues, the file system and the log are shared. Two fields only keep
  account and are read by no step: \<open>lost\<close> lists the tasks whose job raised, \<open>missed\<close>
  counts the workers that left while tasks were still queued.
\<close>

datatype worker = Idle string | Busy string string | Gone

record pool =
  work_queue :: "string list"
  result_queue :: "int list"
  workers :: "worker list"
  shared :: world
  lost :: "string list"
  missed :: nat

type_synonym job = "string \<Rightarrow> world \<Rightarrow> (abort + int) \<times> world"

text \<open>
  One step of worker \<open>i\<close>. \<^verbatim>\<open>get_nowait\<close> hands over the head of the queue or raises
  \<^verbatim>\<open>Queue.Empty\<close>, which ends the loop. On a \<^verbatim>\<open>multiprocessing.Queue\<close> it raises
  \<^verbatim>\<open>Queue.Empty\<close> when the queue is empty, and may also raise it while tasks are
  queued (a sibling holds the reader lock, or the feeder has not flushed the pipe yet):
  \<open>empty_raised\<close> is the environment's choice in that case. A busy worker runs the job
  and puts the status it returned on the result queue, whatever it is; a job that raises
  ends the process with nothing put.
\<close>

definition worker_step :: "job \<Rightarrow> nat \<Rightarrow> bool \<Rightarrow> pool \<Rightarrow> pool" where
  "worker_step job_fn i empty_raised p =
     (if length (workers p) \<le> i then p
      else case workers p ! i of
             Gone \<Rightarrow> p
           | Idle d \<Rightarrow>
               (case work_queue p of
                  [] \<Rightarrow> p\<lparr>workers := (workers p)[i := Gone]\<rparr>
                | xml_file # rest \<Rightarrow>
                    if empty_raised
                    then p\<lparr>workers := (workers p)[i := Gone], missed := Suc (missed p)\<rparr>
                    else p\<lparr>work_queue := rest,
                           workers := (workers p)[i := Busy d xml_file]\<rparr>)
           | Busy d xml_file \<Rightarrow>
               (case job_fn xml_file ((shared p)\<lparr>cwd := d\<rparr>) of
                  (Inl e, w') \<Rightarrow>
                    p\<lparr>workers := (workers p)[i := Gone],
                      shared := w'\<lparr>cwd := cwd (shared p)\<rparr>,
                      lost := lost p @ [xml_file]\<rparr>
                | (Inr status, w') \<Rightarrow>
                    p\<lparr>result_queue := result_queue p @ [status],
                      workers := (workers p)[i := Idle (cwd w')],
                      shared := w'\<lparr>cwd := cwd (shared p)\<rparr>\<rparr>))"

text \<open>
  A run of the pool follows the schedule the environment gives (a list of steps, each
  a worker index and the choice above) and then lets every worker that is still alive
  run on, the lowest index first and with \<^verbatim>\<open>get_nowait\<close> raising only on the empty
  queue, until all have left.
\<close>

definition first_alive :: "worker list \<Rightarrow> nat" where
  "first_alive ws = length (takeWhile (\<lambda>x. x = Gone) ws)"

fun worker_weight :: "worker \<Rightarrow> nat" where
  "worker_weight Gone = 0"
| "worker_weight (Idle d) = 1"
| "worker_weight (Busy d x) = 2"

definition pool_weight :: "pool \<Rightarrow> nat" where
  "pool_weight p = 2 * length (work_queue p) + sum_list (map worker_weight (workers p))"

function drain :: "job \<Rightarrow> pool \<Rightarrow> pool" where
  "drain job_fn p =
     (if first_alive (workers p) < length (workers p)
      then drain job_fn (worker_step job_fn (first_alive (workers p)) False p)
      else p)"
  by pat_completeness auto

lemma first_alive_not_Gone:
  "first_alive ws < length ws \<Longrightarrow> ws ! first_alive ws \<noteq> Gone"
  unfolding first_alive_def by (metis (mono_tags, lifting) nth_length_takeWhile)

lemma weight_update:
  "i < length ws \<Longrightarrow>
   sum_list (map worker_weight (ws[i := x]))
     = sum_list (map worker_weight ws) + worker_weight x - worker_weight (ws ! i)"
  by (simp add: map_update sum_list_update)

lemma weight_nth_le:
  "i < length ws \<Longrightarrow> worker_weight (ws ! i) \<le> sum_list (map worker_weight ws)"
  by (simp add: member_le_sum_list)

lemma worker_step_weight:
  "i < length (workers p) \<Longrightarrow> workers p ! i \<noteq> Gone \<Longrightarrow>
   pool_weight (worker_step job_fn i m p) < pool_weight p"
  using weight_nth_le[of i "workers p"]
  by (cases "workers p ! i")
     (auto simp: worker_step_def pool_weight_def weight_update
           split: list.splits sum.splits prod.splits)

termination drain
  by (relation "measure (\<lambda>(job_fn, p). pool_weight p)")
     (auto simp: worker_step_weight first_alive_not_Gone)

declare drain.simps [simp del]

definition run_pool :: "job \<Rightarrow> (nat \<times> bool) list \<Rightarrow> pool \<Rightarrow> pool" where
  "run_pool job_fn sched p =
     drain job_fn (foldl (\<lambda>q (i, empty_raised). worker_step job_fn i empty_raised q) p sched)"

text \<open>
  Lines 443-473: the queue is loaded before any worker exists, then
  \<^verbatim>\<open>range(num_processors)\<close> workers are started in the driver's working directory.
\<close>

definition start_pool :: "string list \<Rightarrow> int \<Rightarrow> world \<Rightarrow> pool" where
  "start_pool queue num_processors w =
     \<lparr>work_queue = queue, result_queue = [],
      workers = replicate (nat num_processors) (Idle (cwd w)), shared = w,
      lost = [], missed = 0\<rparr>"

text \<open>
  \<^verbatim>\<open>os.chdir (mydir)\<close> followed by \<^verbatim>\<open>return status\<close>, as the driver does it.
\<close>

definition chdir_return :: "string \<Rightarrow> int \<Rightarrow> world \<Rightarrow> (abort + int) \<times> world" where
  "chdir_return mydir status w =
     (case os_chdir mydir w of
        (Inl e, w') \<Rightarrow> (Inl e, w')
      | (Inr u, w') \<Rightarrow> (Inr status, w'))"

text \<open>
  Lines 476-481, the driver's side: \<^verbatim>\<open>result_queue.get()\<close> is called up to
  \<^verbatim>\<open>num_boosted_scenes\<close> times and blocks while the queue is empty. The results are
  read in the order of their arrival. The second component counts the results taken.
\<close>

fun collect_results :: "nat \<Rightarrow> int list \<Rightarrow> (abort + int) \<times> nat" where
  "collect_results 0 results = (Inr SUCCESS, 0)"
| "collect_results (Suc k) [] = (Inl NeverReturns, 0)"
| "collect_results (Suc k) (status # results) =
     (if status \<noteq> SUCCESS then (Inr ERROR, 1)
      else (case collect_results k results of (r, n) \<Rightarrow> (r, Suc n)))"

subsection \<open>\<^verbatim>\<open>BurnedArea.runBurnedArea\<close> (lines 304-522)\<close>

text \<open>
  The driver is entered from the command line (lines 228-302), which binds the logger
  and the options below; \<^verbatim>\<open>num_processors\<close> is 1 unless given.
\<close>

record options =
  opt_sr_list_file :: string
  opt_input_dir :: string
  opt_output_dir :: string
  opt_model_dir :: string
  opt_num_processors :: int
  opt_delete_src :: bool

text \<open>\<^verbatim>\<open>'%03d' % n\<close>.\<close>

fun nat_digits :: "nat \<Rightarrow> string" where
  "nat_digits n =
     (if n < 10 then [char_of (48 + n)]
      else nat_digits (n div 10) @ [char_of (48 + n mod 10)])"

declare nat_digits.simps [simp del]

definition fmt_03d :: "int \<Rightarrow> string" where
  "fmt_03d n =
     (let ds = nat_digits (nat \<bar>n\<bar>)
      in if n < 0 then CHR ''-'' # replicate (2 - length ds) CHR ''0'' @ ds
         else replicate (3 - length ds) CHR ''0'' @ ds)"

text \<open>Lines 504-522: the archive, and the return to the caller's directory.\<close>

definition zip_file_name :: "int \<Rightarrow> int \<Rightarrow> string" where
  "zip_file_name path row = ''burned_area_'' @ fmt_03d path @ ''_'' @ fmt_03d row @ ''.zip''"

definition package_stage :: "env \<Rightarrow> string \<Rightarrow> int \<Rightarrow> int \<Rightarrow> world \<Rightarrow> (abort + int) \<times> world" where
  "package_stage E mydir path row w =
     (let zip_file = zip_file_name path row;
          cmdstr = ''zip '' @ zip_file
                     @ '' burned_area_* burn_count_* good_looks_count_* max_burn_prob_*'';
          w1 = w\<lparr>nodes := os_system E cmdstr (cwd w) (nodes w),
                  trace := trace w @ [System cmdstr]\<rparr>
      in if \<not> os_path_exists w1 zip_file then chdir_return mydir ERROR w1
         else chdir_return mydir SUCCESS w1)"

text \<open>Lines 494-502.\<close>

definition annual_stage ::
  "env \<Rightarrow> options \<Rightarrow> string \<Rightarrow> int \<Rightarrow> int \<Rightarrow> int \<Rightarrow> int \<Rightarrow> world \<Rightarrow> (abort + int) \<times> world" where
  "annual_stage E opts mydir path row start_year end_year w =
     (let stack_file = opt_input_dir opts @ ''/input_stack.csv'';
          output_dir = opt_output_dir opts
      in case runAnnualBurnSummaries E stack_file output_dir output_dir output_dir
                (start_year + 1) end_year (cwd w) (nodes w) of
           (status, nd) \<Rightarrow>
             let w1 = w\<lparr>nodes := nd,
                         trace := trace w @ [AnnualBurnSummaries stack_file output_dir
                                    output_dir output_dir (start_year + 1) end_year]\<rparr>
             in if status \<noteq> SUCCESS then chdir_return mydir ERROR w1
                else package_stage E mydir path row w1)"

text \<open>Lines 483-492.\<close>

definition threshold_stage ::
  "env \<Rightarrow> options \<Rightarrow> string \<Rightarrow> int \<Rightarrow> int \<Rightarrow> int \<Rightarrow> int \<Rightarrow> world \<Rightarrow> (abort + int) \<times> world" where
  "threshold_stage E opts mydir path row start_year end_year w =
     (let stack_file = opt_input_dir opts @ ''/input_stack.csv'';
          output_dir = opt_output_dir opts
      in case runBurnThreshold E stack_file output_dir output_dir (start_year + 1) end_year
                (opt_num_processors opts) (cwd w) (nodes w) of
           (status, nd) \<Rightarrow>
             let w1 = w\<lparr>nodes := nd,
                         trace := trace w @ [BurnThreshold stack_file output_dir output_dir
                                    (start_year + 1) end_year (opt_num_processors opts)]\<rparr>
             in if status \<noteq> SUCCESS then chdir_return mydir ERROR w1
                else annual_stage E opts mydir path row start_year end_year w1)"

text \<open>
  Lines 444-460: the loop that loads the work queue from the scene list read last,
  with the queue and \<^verbatim>\<open>num_boosted_scenes\<close> as loop state.
\<close>

fun load_work_queue ::
  "int \<Rightarrow> string list \<Rightarrow> string list \<Rightarrow> nat \<Rightarrow> abort + (string list \<times> nat)" where
  "load_work_queue start_year [] queue num_boosted_scenes = Inr (queue, num_boosted_scenes)"
| "load_work_queue start_year (line # rest) queue num_boosted_scenes =
     (let xml_file = rstrip [newline] line;
          base_file = basename xml_file;
          scene_name = replace_str ''.xml'' [] base_file
      in case py_int (slice 9 13 scene_name) of
           Inl e \<Rightarrow> Inl e
         | Inr year \<Rightarrow>
             if year = start_year
             then load_work_queue start_year rest queue num_boosted_scenes
             else load_work_queue start_year rest (queue @ [xml_file])
                    (Suc num_boosted_scenes))"

text \<open>
  Lines 436-481. The pool runs in other processes; the driver only reads the result
  queue. In the model the pool is run to its end first and the driver then reads what
  arrived, in order of arrival; the state it returns with holds the effects of all
  jobs, also those that end after the driver has returned.
\<close>

definition regression_pool ::
  "env \<Rightarrow> options \<Rightarrow> int \<Rightarrow> int \<Rightarrow> string \<Rightarrow> string list \<Rightarrow> world \<Rightarrow> pool" where
  "regression_pool E opts path row model_file queue w =
     (let self = \<lparr>self_output_dir = opt_output_dir opts, self_model_file = model_file,
                  self_config_file = ''temp_'' @ fmt_03d path @ ''_'' @ fmt_03d row
                                       @ ''.config''\<rparr>;
          w1 = w\<lparr>trace := trace w @ [PoolStart queue (opt_num_processors opts)]\<rparr>
      in run_pool (sceneBoostedRegression E self) (schedule E)
           (start_pool queue (opt_num_processors opts) w1))"

definition regression_stage ::
  "env \<Rightarrow> options \<Rightarrow> string \<Rightarrow> int \<Rightarrow> int \<Rightarrow> int \<Rightarrow> int \<Rightarrow> string \<Rightarrow> string list \<Rightarrow> world
     \<Rightarrow> (abort + int) \<times> world" where
  "regression_stage E opts mydir path row start_year end_year model_file sr_list w =
     (case load_work_queue start_year sr_list [] 0 of
        Inl e \<Rightarrow> (Inl e, w)
      | Inr (queue, num_boosted_scenes) \<Rightarrow>
          let p = regression_pool E opts path row model_file queue w;
              w2 = shared p
          in (case fst (collect_results num_boosted_scenes (result_queue p)) of
                Inl e \<Rightarrow> (Inl e, w2)
              | Inr status \<Rightarrow>
                  if status \<noteq> SUCCESS then (Inr ERROR, w2)
                  else threshold_stage E opts mydir path row start_year end_year w2))"

text \<open>Lines 427-434.\<close>

definition model_lookup ::
  "env \<Rightarrow> options \<Rightarrow> string \<Rightarrow> int \<Rightarrow> int \<Rightarrow> int \<Rightarrow> int \<Rightarrow> string list \<Rightarrow> world
     \<Rightarrow> (abort + int) \<times> world" where
  "model_lookup E opts mydir path row start_year end_year sr_list w =
     (let model_base_file = get_model_name E path row;
          model_file = opt_model_dir opts @ ''/'' @ model_base_file
      in if \<not> os_path_exists w model_file then (Inr ERROR, w)
         else regression_stage E opts mydir path row start_year end_year model_file
                sr_list w)"

text \<open>Lines 400-425.\<close>

definition seasonal_stage ::
  "env \<Rightarrow> options \<Rightarrow> string \<Rightarrow> int \<Rightarrow> int \<Rightarrow> int \<Rightarrow> int \<Rightarrow> world \<Rightarrow> (abort + int) \<times> world" where
  "seasonal_stage E opts mydir path row start_year end_year w =
     (case processStack E (opt_input_dir opts) (opt_num_processors opts)
             (opt_delete_src opts) (cwd w) (nodes w) of
        (status, nd) \<Rightarrow>
          let w1 = w\<lparr>nodes := nd,
                      trace := trace w @ [ProcessStack (opt_input_dir opts)
                                 (opt_num_processors opts) (opt_delete_src opts)]\<rparr>
          in if status \<noteq> SUCCESS then chdir_return mydir ERROR w1
             else (case readlines w1 ''input_list.txt'' of
                     Inl e \<Rightarrow> (Inl e, w1)
                   | Inr sr_list \<Rightarrow>
                       if length sr_list = 0 then chdir_return mydir ERROR w1
                       else model_lookup E opts mydir path row start_year end_year
                              sr_list w1))"

text \<open>Lines 373-393; \<open>True\<close> when one of the three checks rejects the range.\<close>

definition years_rejected :: "int \<Rightarrow> int \<Rightarrow> bool" where
  "years_rejected start_year end_year =
     (if start_year < 1984 then True
      else if end_year < 1984 then True
      else if end_year < start_year then True
      else False)"

text \<open>
  Lines 330-398, entered with the working directory already changed. \<^verbatim>\<open>path\<close> and
  \<^verbatim>\<open>row\<close> are bound by the first iteration of the loop, which the non-empty list
  guarantees; the branch for their being unbound only makes the function total.
\<close>

definition process_stack :: "env \<Rightarrow> options \<Rightarrow> string \<Rightarrow> world \<Rightarrow> (abort + int) \<times> world" where
  "process_stack E opts mydir w =
     (case readlines w (opt_sr_list_file opts) of
        Inl e \<Rightarrow> (Inl e, w)
      | Inr sr_list \<Rightarrow>
          if length sr_list = 0 then chdir_return mydir ERROR w
          else (case resolve_stack sr_list of
                  Inl e \<Rightarrow> (Inl e, w)
                | Inr (None, start_year, end_year) \<Rightarrow> (Inl NameError, w)
                | Inr (Some (path, row), start_year, end_year) \<Rightarrow>
                    if years_rejected start_year end_year then chdir_return mydir ERROR w
                    else seasonal_stage E opts mydir path row start_year end_year w))"

text \<open>Lines 304-328.\<close>

definition runBurnedArea :: "env \<Rightarrow> options \<Rightarrow> world \<Rightarrow> (abort + int) \<times> world" where
  "runBurnedArea E opts w =
     (if \<not> os_path_exists w (opt_sr_list_file opts) then (Inr ERROR, w)
      else if \<not> os_path_exists w (opt_input_dir opts) then (Inr ERROR, w)
      else
        (case (if \<not> os_path_exists w (opt_output_dir opts)
               then os_makedirs E (opt_output_dir opts) mode_0755 w
               else (Inr (), w)) of
           (Inl e, w1) \<Rightarrow> (Inl e, w1)
         | (Inr u, w1) \<Rightarrow>
             if \<not> os_path_exists w1 (opt_model_dir opts) then (Inr ERROR, w1)
             else (case os_getcwd w1 of
                     Inl e \<Rightarrow> (Inl e, w1)
                   | Inr mydir \<Rightarrow>
                       (case os_chdir (opt_output_dir opts) w1 of
                          (Inl e, w2) \<Rightarrow> (Inl e, w2)
                        | (Inr u', w2) \<Rightarrow> process_stack E opts mydir w2))))"

subsection \<open>Scene names with digits at the fixed offsets\<close>

text \<open>
  A scene name is valid for the resolver when it has the thirteen leading characters
  and those at positions 3 to 12 are decimal digits (three for the path, three for the
  row, four for the year), as in \<^verbatim>\<open>LT50350322002237LGS01\<close>. \<open>scene_year\<close> is the
  number the four year characters of a line of the scene list spell.
\<close>

definition valid_scene_name :: "string \<Rightarrow> bool" where
  "valid_scene_name s = (13 \<le> length s \<and> list_all is_digit (slice 3 13 s))"

definition scene_year :: "string \<Rightarrow> int" where
  "scene_year line = digits_val (slice 9 13 (scene_name_of line))"

subsection \<open>Canonical paths and a concrete stack\<close>

text \<open>
  The working directory of a process is held as a normalised absolute path, which is
  what \<^verbatim>\<open>os.getcwd()\<close> returns.
\<close>

definition canonical :: "string \<Rightarrow> bool" where
  "canonical p = (isabs p \<and> normpath p = p)"

text \<open>
  A small stack on which the properties below are exercised: two scenes of path 35,
  row 32 (2001 and 2002), a second scene list that starts in 1983, the resampled band
  and the mask of the 2002 scene, and one model file. The subsystems succeed, the
  seasonal summaries keep both scenes, and the shell makes the archive.
\<close>

definition scene_2001 :: string where
  "scene_2001 = ''/in/LT50350322001237LGS01.xml''"

definition scene_2002 :: string where
  "scene_2002 = ''/in/LT50350322002237LGS01.xml''"

definition scene_1983 :: string where
  "scene_1983 = ''/in/LT50350321983237LGS01.xml''"

definition nodes_ex :: "string \<rightharpoonup> node" where
  "nodes_ex =
     [''/home'' \<mapsto> Dir mode_0755, ''/in'' \<mapsto> Dir mode_0755, ''/out'' \<mapsto> Dir mode_0755,
      ''/models'' \<mapsto> Dir mode_0755, ''/models/m.xml'' \<mapsto> File [],
      ''/l.txt'' \<mapsto> File (scene_2001 @ [newline] @ scene_2002 @ [newline]),
      ''/old.txt'' \<mapsto> File (scene_1983 @ [newline] @ scene_2002 @ [newline]),
      ''/in/refl/LT50350322002237LGS01_sr_band1.img'' \<mapsto> File [],
      ''/in/mask/LT50350322002237LGS01_mask.img'' \<mapsto> File []]"

definition world_ex :: world where
  "world_ex = \<lparr>nodes = nodes_ex, cwd = ''/home'', trace = []\<rparr>"

definition options_ex :: options where
  "options_ex =
     \<lparr>opt_sr_list_file = ''/l.txt'', opt_input_dir = ''/in'', opt_output_dir = ''/out'',
      opt_model_dir = ''/models'', opt_num_processors = 1, opt_delete_src = False\<rparr>"

definition env_ex :: env where
  "env_ex =
     \<lparr>writable = (\<lambda>p. True), mkdir_fault = (\<lambda>p. None), temp_candidates = [''Xq3k9a''],
      environ_BIN = None, check_output = (\<lambda>cmdlist d. Exited 0 []),
      os_system = (\<lambda>cmdstr d nd. nd(join d ''burned_area_035_032.zip'' \<mapsto> File [])),
      get_model_name = (\<lambda>path row. ''m.xml''),
      processStack = (\<lambda>input_dir n del d nd.
         (SUCCESS, nd(join d ''input_list.txt''
                        \<mapsto> File (scene_2001 @ [newline] @ scene_2002 @ [newline])))),
      runBurnThreshold = (\<lambda>stack_file input_dir output_dir a b n d nd. (SUCCESS, nd)),
      runAnnualBurnSummaries = (\<lambda>stack_file bp_dir bc_dir output_dir a b d nd. (SUCCESS, nd)),
      schedule = []\<rparr>"

text \<open>
  The job descriptor as the specification words it, for comparison with what
  \<open>runGenerateConfig\<close> writes: the output image is
  \<^verbatim>\<open>{output_dir}/{scene_base}_burn_probability\<close>.
\<close>

definition spec_config_text ::
  "string \<Rightarrow> string \<Rightarrow> string \<Rightarrow> string \<Rightarrow> string \<Rightarrow> string" where
  "spec_config_text input_base_file input_mask_file seasonal_sum_dir output_dir model_file =
     ''INPUT_BASE_FILE='' @ input_base_file @ [newline]
     @ ''INPUT_MASK_FILE='' @ input_mask_file @ [newline]
     @ ''INPUT_FILL_VALUE=-9999'' @ [newline]
     @ ''SEASONAL_SUMMARIES_DIR='' @ seasonal_sum_dir @ [newline]
     @ ''OUTPUT_IMG_FILE='' @ output_dir @ ''/'' @ basename input_base_file
         @ ''_burn_probability'' @ [newline]
     @ ''LOAD_MODEL_XML='' @ model_file @ [newline]"

text \<open>The concrete stack with the shared \<^verbatim>\<open>config\<close> directory in place.\<close>

definition world_cfg :: world where
  "world_cfg = world_ex\<lparr>nodes := nodes_ex(''/in/config'' \<mapsto> Dir mode_0755)\<rparr>"

text \<open>The same, with a job descriptor already written.\<close>

definition world_job :: world where
  "world_job = world_cfg\<lparr>nodes := (nodes world_cfg)(''/in/config/job.config'' \<mapsto> File [])\<rparr>"

text \<open>The concrete stack as the driver sees it after changing into the output directory.\<close>

definition world_out :: world where
  "world_out = world_ex\<lparr>cwd := ''/out''\<rparr>"

text \<open>Two more scenes of the same path and row, with no resampled band on disk.\<close>

definition scene_2003 :: string where
  "scene_2003 = ''/in/LT50350322003237LGS01.xml''"


subsection \<open>The year of a queued file, and the accounts of a pool\<close>

text \<open>
  Lines 450-452 applied to a file name already stripped of its newline: the year the
  queue-loading loop compares with \<^verbatim>\<open>start_year\<close>.
\<close>

definition xml_year :: "string \<Rightarrow> abort + int" where
  "xml_year xml_file = py_int (slice 9 13 (replace_str ''.xml'' [] (basename xml_file)))"





definition env_exit_2 :: env where
  "env_exit_2 = env_ex\<lparr>check_output := (\<lambda>cmdlist d. Exited 2 [])\<rparr>"

definition env_no_model :: env where
  "env_no_model = env_ex\<lparr>get_model_name := (\<lambda>path row. ''none.xml'')\<rparr>"

definition env_lists_2003 :: env where
  "env_lists_2003 =
     env_ex\<lparr>processStack := (\<lambda>input_dir n del d nd.
        (SUCCESS, nd(join d ''input_list.txt''
                       \<mapsto> File (scene_2001 @ [newline] @ scene_2003 @ [newline]))))\<rparr>"

definition self_ex :: stack_object where
  "self_ex = \<lparr>self_output_dir = ''/out'', self_model_file = ''/models/m.xml'',
               self_config_file = ''temp_035_032.config''\<rparr>"

section \<open>Properties\<close>

subsection \<open>The resolver\<close>

lemma is_digit_not_space: "is_digit c \<Longrightarrow> \<not> is_space c"
  by (auto simp: is_digit_def is_space_def)

lemma is_digit_not_sign: "is_digit c \<Longrightarrow> c \<noteq> CHR ''-'' \<and> c \<noteq> CHR ''+''"
  by (auto simp: is_digit_def)

lemma strip_digits:
  assumes ne: "ds \<noteq> []" and d: "list_all is_digit ds"
  shows "strip ds = ds"
proof -
  have h: "\<not> is_space (hd ds)"
    using ne d by (cases ds) (auto simp: is_digit_not_space)
  have l: "\<not> is_space (last ds)"
    using ne d by (metis is_digit_not_space last_in_set list_all_iff)
  have 1: "dropWhile is_space ds = ds"
    using ne h by (cases ds) auto
  have 2: "dropWhile is_space (rev ds) = rev ds"
    using ne l by (cases "rev ds") (auto simp: last_rev hd_rev)
  show ?thesis by (simp add: strip_def 1 2)
qed

lemma py_int_digits:
  "ds \<noteq> [] \<Longrightarrow> list_all is_digit ds \<Longrightarrow> py_int ds = Inr (digits_val ds)"
  using is_digit_not_sign[of "hd ds"]
  by (cases ds) (auto simp: py_int_def strip_digits Let_def)

lemma digits_val_snoc: "digits_val (ds @ [c]) = 10 * digits_val ds + digit_val c"
  by (simp add: digits_val_def)

lemma digit_val_range: "is_digit c \<Longrightarrow> 0 \<le> digit_val c \<and> digit_val c \<le> 9"
  by (auto simp: is_digit_def digit_val_def)

lemma digits_val_range:
  "list_all is_digit ds \<Longrightarrow> 0 \<le> digits_val ds \<and> digits_val ds < 10 ^ length ds"
proof (induction ds rule: rev_induct)
  case Nil
  then show ?case by (simp add: digits_val_def)
next
  case (snoc c ds)
  then have ih: "0 \<le> digits_val ds \<and> digits_val ds < 10 ^ length ds" by simp
  from snoc.prems have "is_digit c" by simp
  then have d: "0 \<le> digit_val c \<and> digit_val c \<le> 9" by (rule digit_val_range)
  show ?case using ih d by (simp add: digits_val_snoc)
qed

lemma slice_split: "slice 3 13 s = slice 3 6 s @ slice 6 9 s @ slice 9 13 s"
proof -
  have "take (3 + (3 + 4)) (drop 3 s)
          = take 3 (drop 3 s) @ take 3 (drop 3 (drop 3 s)) @ take 4 (drop 3 (drop 3 (drop 3 s)))"
    by (simp only: take_add)
  then show ?thesis by (simp add: slice_def)
qed

lemma valid_fields:
  assumes "valid_scene_name s"
  shows "slice 3 6 s \<noteq> [] \<and> list_all is_digit (slice 3 6 s)"
    and "slice 6 9 s \<noteq> [] \<and> list_all is_digit (slice 6 9 s)"
    and "length (slice 9 13 s) = 4 \<and> list_all is_digit (slice 9 13 s)"
  using assms unfolding valid_scene_name_def slice_split
  by (auto simp: slice_def)

lemma valid_year_parse:
  assumes "valid_scene_name (scene_name_of l)"
  shows "py_int (slice 9 13 (scene_name_of l)) = Inr (scene_year l)"
proof -
  have "slice 9 13 (scene_name_of l) \<noteq> []"
    using valid_fields(3)[OF assms] by auto
  then show ?thesis
    using valid_fields(3)[OF assms] by (simp add: py_int_digits scene_year_def)
qed

lemma valid_year_range:
  "valid_scene_name (scene_name_of l) \<Longrightarrow> 0 \<le> scene_year l \<and> scene_year l \<le> 9999"
  using digits_val_range[of "slice 9 13 (scene_name_of l)"] valid_fields(3)[of "scene_name_of l"]
  by (simp add: scene_year_def)

lemma scan_scenes_valid:
  "list_all (\<lambda>l. valid_scene_name (scene_name_of l)) ls \<Longrightarrow>
   scan_scenes (Suc i) ls pr sy ey
     = Inr (pr, fold min (map scene_year ls) sy, fold max (map scene_year ls) ey)"
proof (induction ls arbitrary: i sy ey)
  case Nil
  then show ?case by simp
next
  case (Cons l ls)
  then have v: "valid_scene_name (scene_name_of l)" by simp
  have y: "py_int (slice 9 13 (scene_name_of l)) = Inr (scene_year l)"
    using v by (rule valid_year_parse)
  have "scan_scenes (Suc i) (l # ls) pr sy ey
          = scan_scenes (Suc (Suc i)) ls pr (min (scene_year l) sy) (max (scene_year l) ey)"
    by (simp add: y Let_def min_def max_def)
  also have "\<dots> = Inr (pr, fold min (map scene_year ls) (min (scene_year l) sy),
                      fold max (map scene_year ls) (max (scene_year l) ey))"
    using Cons by simp
  finally show ?case by simp
qed

text \<open>
  Claim C4. For a scene list that is not empty and whose scene names are all valid, the
  resolver returns the path as the number spelt by characters \<open>[3:6]\<close> and the row as
  the number spelt by characters \<open>[6:9]\<close> of the first scene name (the basename with
  \<^verbatim>\<open>.xml\<close> removed), the start year as the minimum and the end year as the maximum of
  the numbers spelt by characters \<open>[9:13]\<close> of all scene names.
\<close>

theorem resolver_fixed_offsets:
  assumes ne: "sr_list \<noteq> []"
    and valid: "list_all (\<lambda>l. valid_scene_name (scene_name_of l)) sr_list"
  shows "resolve_stack sr_list
           = Inr (Some (digits_val (slice 3 6 (scene_name_of (hd sr_list))),
                        digits_val (slice 6 9 (scene_name_of (hd sr_list)))),
                  Min (set (map scene_year sr_list)),
                  Max (set (map scene_year sr_list)))"
proof -
  obtain l ls where sr: "sr_list = l # ls" using ne by (cases sr_list) auto
  have v: "valid_scene_name (scene_name_of l)" using valid sr by simp
  have vs: "list_all (\<lambda>l. valid_scene_name (scene_name_of l)) ls" using valid sr by simp
  have p: "py_int (slice 3 6 (scene_name_of l)) = Inr (digits_val (slice 3 6 (scene_name_of l)))"
    using valid_fields(1)[OF v] by (simp add: py_int_digits)
  have r: "py_int (slice 6 9 (scene_name_of l)) = Inr (digits_val (slice 6 9 (scene_name_of l)))"
    using valid_fields(2)[OF v] by (simp add: py_int_digits)
  have y: "py_int (slice 9 13 (scene_name_of l)) = Inr (scene_year l)"
    using v by (rule valid_year_parse)
  have yr: "0 \<le> scene_year l \<and> scene_year l \<le> 9999" using v by (rule valid_year_range)
  have "resolve_stack sr_list
          = scan_scenes (Suc 0) ls
              (Some (digits_val (slice 3 6 (scene_name_of l)),
                     digits_val (slice 6 9 (scene_name_of l))))
              (scene_year l) (scene_year l)"
    using yr by (auto simp: resolve_stack_def sr p r y Let_def)
  also have "\<dots> = Inr (Some (digits_val (slice 3 6 (scene_name_of l)),
                             digits_val (slice 6 9 (scene_name_of l))),
                       fold min (map scene_year ls) (scene_year l),
                       fold max (map scene_year ls) (scene_year l))"
    using vs by (rule scan_scenes_valid)
  finally have res: "resolve_stack sr_list
          = Inr (Some (digits_val (slice 3 6 (scene_name_of l)),
                       digits_val (slice 6 9 (scene_name_of l))),
                 fold min (map scene_year ls) (scene_year l),
                 fold max (map scene_year ls) (scene_year l))" .
  have mn: "Min (set (map scene_year sr_list)) = fold min (map scene_year ls) (scene_year l)"
    using Min.set_eq_fold[of "scene_year l" "map scene_year ls"] by (simp add: sr)
  have mx: "Max (set (map scene_year sr_list)) = fold max (map scene_year ls) (scene_year l)"
    using Max.set_eq_fold[of "scene_year l" "map scene_year ls"] by (simp add: sr)
  show ?thesis unfolding res mn mx by (simp add: sr)
qed

theorem resolver_fixed_offsets_witness:
  "[''/d/LT50350322002237LGS01.xml'' @ [newline], ''/d/LT50350322003237LGS01.xml'' @ [newline]] \<noteq> []
   \<and> list_all (\<lambda>l. valid_scene_name (scene_name_of l))
        [''/d/LT50350322002237LGS01.xml'' @ [newline], ''/d/LT50350322003237LGS01.xml'' @ [newline]]
   \<and> resolve_stack
        [''/d/LT50350322002237LGS01.xml'' @ [newline], ''/d/LT50350322003237LGS01.xml'' @ [newline]]
       = Inr (Some (35, 32), 2002, 2003)"
proof -
  let ?sr = "[''/d/LT50350322002237LGS01.xml'' @ [newline],
              ''/d/LT50350322003237LGS01.xml'' @ [newline]]"
  have ne: "?sr \<noteq> []" by simp
  have valid: "list_all (\<lambda>l. valid_scene_name (scene_name_of l)) ?sr"
    by code_simp
  have "resolve_stack ?sr
          = Inr (Some (digits_val (slice 3 6 (scene_name_of (hd ?sr))),
                       digits_val (slice 6 9 (scene_name_of (hd ?sr)))),
                 Min (set (map scene_year ?sr)), Max (set (map scene_year ?sr)))"
    using resolver_fixed_offsets[OF ne valid] .
  also have "\<dots> = Inr (Some (35, 32), 2002, 2003)"
    by code_simp
  finally show ?thesis using ne valid by blast
qed

subsection \<open>Validation of the year range\<close>

lemma abspath_canonical: "canonical p \<Longrightarrow> abspath c p = p"
  by (simp add: canonical_def abspath_def)

lemma canonical_nonempty: "canonical p \<Longrightarrow> p \<noteq> []"
  by (auto simp: canonical_def isabs_def)

lemma chdir_return_back:
  assumes "canonical mydir" and "os_path_isdir w mydir"
  shows "chdir_return mydir status w
           = (Inr status, w\<lparr>cwd := mydir, trace := trace w @ [Chdir mydir]\<rparr>)"
  using assms by (simp add: chdir_return_def os_chdir_def abspath_canonical)

lemma scan_scenes_lower:
  "scan_scenes i ls pr sy ey = Inr (pr', s, e) \<Longrightarrow>
   s \<le> sy \<and> (\<forall>l\<in>set ls. \<forall>y. py_int (slice 9 13 (scene_name_of l)) = Inr y \<longrightarrow> s \<le> y)"
proof (induction ls arbitrary: i pr sy ey)
  case Nil
  then show ?case by simp
next
  case (Cons l ls)
  from Cons.prems obtain pr1 y where
    y: "py_int (slice 9 13 (scene_name_of l)) = Inr y" and
    rest: "scan_scenes (Suc i) ls pr1 (if y < sy then y else sy) (if y > ey then y else ey)
             = Inr (pr', s, e)"
    by (auto simp: Let_def split: sum.splits if_splits)
  from Cons.IH[OF rest] have
    "s \<le> (if y < sy then y else sy)" and
    "\<forall>l\<in>set ls. \<forall>y. py_int (slice 9 13 (scene_name_of l)) = Inr y \<longrightarrow> s \<le> y"
    by auto
  then show ?case using y by (auto split: if_splits)
qed

lemma process_stack_rejects:
  assumes "canonical mydir" and "os_path_isdir w mydir"
    and "readlines w (opt_sr_list_file opts) = Inr sr_list"
    and "resolve_stack sr_list = Inr (Some (path, row), start_year, end_year)"
    and "(\<exists>l\<in>set sr_list. \<exists>y. py_int (slice 9 13 (scene_name_of l)) = Inr y \<and> y < 1984)
         \<or> end_year < 1984 \<or> end_year < start_year"
  shows "process_stack E opts mydir w
           = (Inr ERROR, w\<lparr>cwd := mydir, trace := trace w @ [Chdir mydir]\<rparr>)"
proof -
  have "start_year < 1984 \<or> end_year < 1984 \<or> end_year < start_year"
    using assms(5) scan_scenes_lower[OF assms(4)[unfolded resolve_stack_def]] by fastforce
  then have rej: "years_rejected start_year end_year"
    by (auto simp: years_rejected_def)
  show ?thesis
    using assms(3,4) rej chdir_return_back[OF assms(1,2)]
    by (simp add: process_stack_def)
qed

lemma isdir_canonical:
  "canonical d \<Longrightarrow> os_path_isdir (w\<lparr>cwd := c, trace := t\<rparr>) d = os_path_isdir w d"
  by (simp add: os_path_isdir_def abspath_canonical)

lemma getcwd_ok: "os_path_isdir w (cwd w) \<Longrightarrow> os_getcwd w = Inr (cwd w)"
  by (simp add: os_getcwd_def)

text \<open>
  Claim C6. When the driver has passed its argument checks and read a scene list whose
  derived years are invalid (a derived year below 1984, or an end year below 1984 or
  below the start year), it returns \<open>ERROR\<close>, and the only calls it has made by then are
  the change into the output directory and the change back: no stage has run.
\<close>

theorem invalid_years_rejected:
  assumes present: "os_path_exists w (opt_sr_list_file opts)" "os_path_exists w (opt_input_dir opts)"
      "os_path_isdir w (opt_output_dir opts)" "os_path_exists w (opt_model_dir opts)"
    and here: "canonical (cwd w)" "os_path_isdir w (cwd w)"
    and w2: "w2 = w\<lparr>cwd := abspath (cwd w) (opt_output_dir opts),
                     trace := trace w @ [Chdir (abspath (cwd w) (opt_output_dir opts))]\<rparr>"
    and list: "readlines w2 (opt_sr_list_file opts) = Inr sr_list"
    and resolved: "resolve_stack sr_list = Inr (Some (path, row), start_year, end_year)"
    and invalid:
      "(\<exists>l\<in>set sr_list. \<exists>y. py_int (slice 9 13 (scene_name_of l)) = Inr y \<and> y < 1984)
         \<or> end_year < 1984 \<or> end_year < start_year"
  shows "runBurnedArea E opts w
           = (Inr ERROR,
              w\<lparr>trace := trace w @ [Chdir (abspath (cwd w) (opt_output_dir opts)),
                                     Chdir (cwd w)]\<rparr>)"
proof -
  have ex: "os_path_exists w (opt_output_dir opts)"
    using present(3) by (auto simp: os_path_isdir_def os_path_exists_def split: option.splits)
  have cd: "os_chdir (opt_output_dir opts) w = (Inr (), w2)"
    using present(3) by (simp add: os_chdir_def w2)
  have home: "os_path_isdir w2 (cwd w)"
    using here by (simp add: w2 isdir_canonical)
  have "runBurnedArea E opts w = process_stack E opts (cwd w) w2"
    using present(1,2,4) ex cd getcwd_ok[OF here(2)] by (simp add: runBurnedArea_def)
  also have "\<dots> = (Inr ERROR, w2\<lparr>cwd := cwd w, trace := trace w2 @ [Chdir (cwd w)]\<rparr>)"
    using process_stack_rejects[OF here(1) home list resolved invalid] .
  also have "\<dots> = (Inr ERROR,
              w\<lparr>trace := trace w @ [Chdir (abspath (cwd w) (opt_output_dir opts)),
                                     Chdir (cwd w)]\<rparr>)"
    by (simp add: w2)
  finally show ?thesis .
qed

theorem invalid_years_rejected_witness:
  "resolve_stack [scene_1983 @ [newline], scene_2002 @ [newline]] = Inr (Some (35, 32), 1983, 2002)
   \<and> runBurnedArea env_ex (options_ex\<lparr>opt_sr_list_file := ''/old.txt''\<rparr>) world_ex
       = (Inr ERROR, world_ex\<lparr>trace := [Chdir ''/out'', Chdir ''/home'']\<rparr>)"
proof -
  let ?opts = "options_ex\<lparr>opt_sr_list_file := ''/old.txt''\<rparr>"
  let ?sr = "[scene_1983 @ [newline], scene_2002 @ [newline]]"
  have p1: "os_path_exists world_ex (opt_sr_list_file ?opts)" by code_simp
  have p2: "os_path_exists world_ex (opt_input_dir ?opts)" by code_simp
  have p3: "os_path_isdir world_ex (opt_output_dir ?opts)" by code_simp
  have p4: "os_path_exists world_ex (opt_model_dir ?opts)" by code_simp
  have h1: "canonical (cwd world_ex)" by code_simp
  have h2: "os_path_isdir world_ex (cwd world_ex)" by code_simp
  have l: "readlines (world_ex\<lparr>cwd := abspath (cwd world_ex) (opt_output_dir ?opts),
                       trace := trace world_ex
                                  @ [Chdir (abspath (cwd world_ex) (opt_output_dir ?opts))]\<rparr>)
             (opt_sr_list_file ?opts) = Inr ?sr"
    by code_simp
  have r: "resolve_stack ?sr = Inr (Some (35, 32), 1983, 2002)" by code_simp
  have "py_int (slice 9 13 (scene_name_of (scene_1983 @ [newline]))) = Inr 1983"
    by code_simp
  then have i: "(\<exists>l\<in>set ?sr. \<exists>y. py_int (slice 9 13 (scene_name_of l)) = Inr y \<and> y < 1984)
                 \<or> (2002::int) < 1984 \<or> (2002::int) < 1983"
    by (simp del: append.simps)
  have t: "abspath ''/home'' (opt_output_dir ?opts) = ''/out''" by code_simp
  have c: "cwd world_ex = ''/home''" by code_simp
  have e: "trace world_ex = []" by code_simp
  have "runBurnedArea env_ex ?opts world_ex
          = (Inr ERROR,
             world_ex\<lparr>trace := trace world_ex
                        @ [Chdir (abspath (cwd world_ex) (opt_output_dir ?opts)),
                           Chdir (cwd world_ex)]\<rparr>)"
    using invalid_years_rejected[OF p1 p2 p3 p4 h1 h2 refl l r i, of env_ex] .
  then have "runBurnedArea env_ex ?opts world_ex
          = (Inr ERROR, world_ex\<lparr>trace := [] @ [Chdir ''/out'', Chdir ''/home'']\<rparr>)"
    unfolding c e t .
  then show ?thesis using r by simp
qed

subsection \<open>The job descriptor\<close>

lemma status_distinct: "ERROR \<noteq> SUCCESS"
  by (simp add: ERROR_def SUCCESS_def)

lemma split_lines_line:
  "newline \<notin> set l \<Longrightarrow> split_lines (l @ newline # rest) = (l @ [newline]) # split_lines rest"
  by (induction l) (auto split: list.splits)

text \<open>
  Claim C8, as amended. Whenever \<open>runGenerateConfig\<close> returns \<open>SUCCESS\<close>, the descriptor
  it wrote consists of six newline-terminated \<^verbatim>\<open>KEY=VALUE\<close> strings in the order
  \<^verbatim>\<open>INPUT_BASE_FILE\<close>, \<^verbatim>\<open>INPUT_MASK_FILE\<close>, \<^verbatim>\<open>INPUT_FILL_VALUE=-9999\<close>,
  \<^verbatim>\<open>SEASONAL_SUMMARIES_DIR\<close>, \<^verbatim>\<open>OUTPUT_IMG_FILE\<close>, \<^verbatim>\<open>LOAD_MODEL_XML\<close>, where the
  output image is \<^verbatim>\<open>{output_dir}/{scene_base}_burn_probability.img\<close>; when no value
  holds a newline these are exactly the six lines of the file.
\<close>

theorem config_six_lines:
  assumes "fst (runGenerateConfig E config_file seasonal_sum_dir input_base_file
                  input_mask_file output_dir model_file w) = Inr SUCCESS"
  shows "\<exists>text. nodes (snd (runGenerateConfig E config_file seasonal_sum_dir input_base_file
                               input_mask_file output_dir model_file w))
                 (abspath (cwd w) config_file) = Some (File text)
          \<and> text = ''INPUT_BASE_FILE='' @ input_base_file @ [newline]
                 @ ''INPUT_MASK_FILE='' @ input_mask_file @ [newline]
                 @ ''INPUT_FILL_VALUE=-9999'' @ [newline]
                 @ ''SEASONAL_SUMMARIES_DIR='' @ seasonal_sum_dir @ [newline]
                 @ ''OUTPUT_IMG_FILE='' @ output_dir @ ''/'' @ basename input_base_file
                     @ ''_burn_probability.img'' @ [newline]
                 @ ''LOAD_MODEL_XML='' @ model_file @ [newline]
          \<and> (newline \<notin> set (input_base_file @ input_mask_file @ seasonal_sum_dir
                               @ output_dir @ model_file) \<longrightarrow>
               split_lines text
                 = [''INPUT_BASE_FILE='' @ input_base_file @ [newline],
                    ''INPUT_MASK_FILE='' @ input_mask_file @ [newline],
                    ''INPUT_FILL_VALUE=-9999'' @ [newline],
                    ''SEASONAL_SUMMARIES_DIR='' @ seasonal_sum_dir @ [newline],
                    ''OUTPUT_IMG_FILE='' @ output_dir @ ''/'' @ basename input_base_file
                      @ ''_burn_probability.img'' @ [newline],
                    ''LOAD_MODEL_XML='' @ model_file @ [newline]])"
proof -
  let ?text = "''INPUT_BASE_FILE='' @ input_base_file @ [newline]
                 @ ''INPUT_MASK_FILE='' @ input_mask_file @ [newline]
                 @ ''INPUT_FILL_VALUE=-9999'' @ [newline]
                 @ ''SEASONAL_SUMMARIES_DIR='' @ seasonal_sum_dir @ [newline]
                 @ ''OUTPUT_IMG_FILE='' @ output_dir @ ''/'' @ basename input_base_file
                     @ ''_burn_probability.img'' @ [newline]
                 @ ''LOAD_MODEL_XML='' @ model_file @ [newline]"
  have written: "nodes (snd (runGenerateConfig E config_file seasonal_sum_dir input_base_file
                               input_mask_file output_dir model_file w))
                   (abspath (cwd w) config_file) = Some (File ?text)"
    using assms status_distinct
    by (auto simp: runGenerateConfig_def write_file_def config_lines_def Let_def
             split: if_splits prod.splits sum.splits)
  have nl: "newline \<notin> set ''INPUT_BASE_FILE=''" "newline \<notin> set ''INPUT_MASK_FILE=''"
    "newline \<notin> set ''INPUT_FILL_VALUE=-9999''" "newline \<notin> set ''SEASONAL_SUMMARIES_DIR=''"
    "newline \<notin> set ''OUTPUT_IMG_FILE=''" "newline \<notin> set ''LOAD_MODEL_XML=''"
    "newline \<notin> set ''_burn_probability.img''" "newline \<noteq> CHR ''/''"
    by (simp_all add: newline_def)
  have base: "set (basename input_base_file) \<subseteq> set input_base_file"
    unfolding basename_def by (metis set_rev set_takeWhileD subsetI)
  have six: "split_lines ?text
                 = [''INPUT_BASE_FILE='' @ input_base_file @ [newline],
                    ''INPUT_MASK_FILE='' @ input_mask_file @ [newline],
                    ''INPUT_FILL_VALUE=-9999'' @ [newline],
                    ''SEASONAL_SUMMARIES_DIR='' @ seasonal_sum_dir @ [newline],
                    ''OUTPUT_IMG_FILE='' @ output_dir @ ''/'' @ basename input_base_file
                      @ ''_burn_probability.img'' @ [newline],
                    ''LOAD_MODEL_XML='' @ model_file @ [newline]]"
    if free: "newline \<notin> set (input_base_file @ input_mask_file @ seasonal_sum_dir
                               @ output_dir @ model_file)"
  proof -
    have l1: "newline \<notin> set (''INPUT_BASE_FILE='' @ input_base_file)"
      and l2: "newline \<notin> set (''INPUT_MASK_FILE='' @ input_mask_file)"
      and l4: "newline \<notin> set (''SEASONAL_SUMMARIES_DIR='' @ seasonal_sum_dir)"
      and l5: "newline \<notin> set (''OUTPUT_IMG_FILE='' @ output_dir @ ''/'' @ basename input_base_file
                      @ ''_burn_probability.img'')"
      and l6: "newline \<notin> set (''LOAD_MODEL_XML='' @ model_file)"
      using free nl base by auto
    show ?thesis
      using split_lines_line[OF l1] split_lines_line[OF l2] split_lines_line[OF nl(3)]
        split_lines_line[OF l4] split_lines_line[OF l5] split_lines_line[OF l6]
      by simp
  qed
  show ?thesis using written six by blast
qed

theorem config_six_lines_witness:
  "fst (runGenerateConfig env_ex ''/in/config/job.config'' ''/in''
          ''/in/refl/LT50350322002237LGS01'' ''/in/mask/LT50350322002237LGS01_mask.img''
          ''/out'' ''/models/m.xml'' world_cfg) = Inr SUCCESS
   \<and> (\<exists>text. nodes (snd (runGenerateConfig env_ex ''/in/config/job.config'' ''/in''
                  ''/in/refl/LT50350322002237LGS01''
                  ''/in/mask/LT50350322002237LGS01_mask.img''
                  ''/out'' ''/models/m.xml'' world_cfg)) ''/in/config/job.config''
                = Some (File text)
          \<and> split_lines text
              = [''INPUT_BASE_FILE=/in/refl/LT50350322002237LGS01'' @ [newline],
                 ''INPUT_MASK_FILE=/in/mask/LT50350322002237LGS01_mask.img'' @ [newline],
                 ''INPUT_FILL_VALUE=-9999'' @ [newline],
                 ''SEASONAL_SUMMARIES_DIR=/in'' @ [newline],
                 ''OUTPUT_IMG_FILE=/out/LT50350322002237LGS01_burn_probability.img''
                   @ [newline],
                 ''LOAD_MODEL_XML=/models/m.xml'' @ [newline]])"
proof -
  have ok: "fst (runGenerateConfig env_ex ''/in/config/job.config'' ''/in''
          ''/in/refl/LT50350322002237LGS01'' ''/in/mask/LT50350322002237LGS01_mask.img''
          ''/out'' ''/models/m.xml'' world_cfg) = Inr SUCCESS"
    by code_simp
  have key: "abspath (cwd world_cfg) ''/in/config/job.config'' = ''/in/config/job.config''"
    by code_simp
  have base: "basename ''/in/refl/LT50350322002237LGS01'' = ''LT50350322002237LGS01''"
    by code_simp
  have free: "newline \<notin> set (''/in/refl/LT50350322002237LGS01''
                @ ''/in/mask/LT50350322002237LGS01_mask.img'' @ ''/in'' @ ''/out''
                @ ''/models/m.xml'')"
    by code_simp
  show ?thesis
    using config_six_lines[OF ok] ok free unfolding key base by auto
qed

text \<open>
  The claim as worded fails: on the concrete stack the generation succeeds and the
  descriptor is not the text with \<^verbatim>\<open>{output_dir}/{scene_base}_burn_probability\<close> as
  output image.
\<close>

theorem config_output_name_counterexample:
  "fst (runGenerateConfig env_ex ''/in/config/job.config'' ''/in''
          ''/in/refl/LT50350322002237LGS01'' ''/in/mask/LT50350322002237LGS01_mask.img''
          ''/out'' ''/models/m.xml'' world_cfg) = Inr SUCCESS
   \<and> nodes (snd (runGenerateConfig env_ex ''/in/config/job.config'' ''/in''
          ''/in/refl/LT50350322002237LGS01'' ''/in/mask/LT50350322002237LGS01_mask.img''
          ''/out'' ''/models/m.xml'' world_cfg)) ''/in/config/job.config''
       \<noteq> Some (File (spec_config_text ''/in/refl/LT50350322002237LGS01''
                         ''/in/mask/LT50350322002237LGS01_mask.img'' ''/in'' ''/out''
                         ''/models/m.xml''))"
  by code_simp

subsection \<open>Argument checks of the driver\<close>

lemma isdir_exists: "os_path_isdir w p \<Longrightarrow> os_path_exists w p"
  by (auto simp: os_path_isdir_def os_path_exists_def split: option.splits)






subsection \<open>The call log only grows\<close>

lemma chdir_grows: "os_chdir p w = (r, w') \<Longrightarrow> prefix (trace w) (trace w')"
  by (auto simp: os_chdir_def split: if_splits)

lemma makedirs_grows: "os_makedirs E p mode w = (r, w') \<Longrightarrow> prefix (trace w) (trace w')"
  by (auto simp: os_makedirs_def Let_def split: option.splits mkfault.splits if_splits)

lemma remove_grows: "os_remove p w = (r, w') \<Longrightarrow> prefix (trace w) (trace w')"
  by (auto simp: os_remove_def split: if_splits)

lemma write_file_trace: "write_file E p text w = (r, w') \<Longrightarrow> trace w' = trace w"
  by (auto simp: write_file_def Let_def split: if_splits)

lemma chdir_return_grows:
  "chdir_return mydir status w = (r, w') \<Longrightarrow> prefix (trace w) (trace w')"
  by (auto simp: chdir_return_def split: prod.splits sum.splits dest: chdir_grows)

lemma generate_config_trace:
  "runGenerateConfig E cf ssd ibf imf od mf w = (r, w') \<Longrightarrow> trace w' = trace w"
  by (auto simp: runGenerateConfig_def Let_def split: prod.splits sum.splits if_splits
           dest: write_file_trace)

lemma return_global_world: "return_global G name w = (r, w') \<Longrightarrow> w' = w"
  by (auto simp: return_global_def split: option.splits)

lemma chdir_return_global_grows:
  "chdir_return_global G mydir name w = (r, w') \<Longrightarrow> prefix (trace w) (trace w')"
  by (auto simp: chdir_return_global_def split: prod.splits sum.splits
           dest: chdir_grows return_global_world)

lemma boosted_regression_grows:
  assumes "runBoostedRegression E cf ub w = (r, w')"
  shows "prefix (trace w) (trace w')"
proof -
  have step: "prefix (trace w) (trace w3)"
    if "os_chdir cd w = (Inr u, w1)"
      and "chdir_return_global G mydir name (w1\<lparr>trace := trace w1 @ [ev]\<rparr>) = (r3, w3)"
    for mydir name w1 ev cd u r3 w3 G
  proof -
    have "prefix (trace w) (trace w1)" using chdir_grows that(1) by blast
    then have "prefix (trace w) (trace (w1\<lparr>trace := trace w1 @ [ev]\<rparr>))" by simp
    then show ?thesis
      using chdir_return_global_grows[OF that(2)] prefix_order.trans by blast
  qed
  have stop: "prefix (trace w) (trace w1 @ [ev])"
    if "os_chdir cd w = (Inr u, w1)" for w1 ev cd u
    using chdir_grows[OF that] by simp
  show ?thesis
    using assms
    by (auto simp: runBoostedRegression_def Let_def
          split: sum.splits option.splits prod.splits exe_outcome.splits if_splits
          dest: step stop chdir_grows return_global_world)
qed

lemma ensure_config_dir_grows:
  "ensure_config_dir E d w = (b, w') \<Longrightarrow> prefix (trace w) (trace w')"
  by (auto simp: ensure_config_dir_def split: if_splits prod.splits sum.splits
           dest: makedirs_grows)

lemma scene_regression_grows:
  assumes "sceneBoostedRegression E self xml_file w = (r, w')"
  shows "prefix (trace w) (trace w')"
proof -
  obtain b w1 where e: "ensure_config_dir E (dirname xml_file @ ''/config'') w = (b, w1)"
    by (metis prod.collapse)
  have g1: "prefix (trace w) (trace w1)" using e by (rule ensure_config_dir_grows)
  have rest: "prefix (trace w1) (trace w')"
    using assms e
    by (auto simp: sceneBoostedRegression_def Let_def
          split: sum.splits prod.splits if_splits bool.splits
          dest!: generate_config_trace boosted_regression_grows remove_grows
          intro: prefix_order.trans)
  show ?thesis using g1 rest by (rule prefix_order.trans)
qed

lemma worker_step_grows:
  assumes jobs: "\<And>x w r w'. job_fn x w = (r, w') \<Longrightarrow> prefix (trace w) (trace w')"
  shows "prefix (trace (shared p)) (trace (shared (worker_step job_fn i m p)))"
proof (cases "i < length (workers p)")
  case False
  then show ?thesis by (simp add: worker_step_def)
next
  case True
  show ?thesis
  proof (cases "workers p ! i")
    case (Busy d x)
    obtain r w' where run: "job_fn x ((shared p)\<lparr>cwd := d\<rparr>) = (r, w')"
      by (metis prod.collapse)
    have "prefix (trace (shared p)) (trace w')" using jobs[OF run] by simp
    then show ?thesis
      using True Busy run by (cases r) (simp_all add: worker_step_def)
  qed (use True in \<open>auto simp: worker_step_def split: list.splits\<close>)
qed

lemma schedule_grows:
  assumes jobs: "\<And>x w r w'. job_fn x w = (r, w') \<Longrightarrow> prefix (trace w) (trace w')"
  shows "prefix (trace (shared p))
           (trace (shared (foldl (\<lambda>q (i, m). worker_step job_fn i m q) p sched)))"
proof (induction sched arbitrary: p)
  case Nil
  then show ?case by simp
next
  case (Cons s sched)
  obtain i m where s: "s = (i, m)" by (cases s)
  have "prefix (trace (shared p)) (trace (shared (worker_step job_fn i m p)))"
    using jobs by (rule worker_step_grows)
  then show ?case
    using Cons[of "worker_step job_fn i m p"] prefix_order.trans by (fastforce simp: s)
qed

lemma drain_grows:
  "(\<And>x w r w'. job_fn x w = (r, w') \<Longrightarrow> prefix (trace w) (trace w')) \<Longrightarrow>
   prefix (trace (shared p)) (trace (shared (drain job_fn p)))"
proof (induction job_fn p rule: drain.induct)
  case (1 job_fn p)
  show ?case
  proof (cases "first_alive (workers p) < length (workers p)")
    case True
    have a: "prefix (trace (shared p))
               (trace (shared (worker_step job_fn (first_alive (workers p)) False p)))"
      using "1.prems" by (rule worker_step_grows)
    have b: "prefix (trace (shared (worker_step job_fn (first_alive (workers p)) False p)))
               (trace (shared (drain job_fn
                  (worker_step job_fn (first_alive (workers p)) False p))))"
      using "1.IH"[OF True] "1.prems" by blast
    show ?thesis
      using prefix_order.trans[OF a b] True by (simp add: drain.simps[of job_fn p])
  next
    case False
    then show ?thesis by (simp add: drain.simps[of job_fn p])
  qed
qed

lemma regression_pool_grows:
  "prefix (trace w @ [PoolStart queue (opt_num_processors opts)])
     (trace (shared (regression_pool E opts path row model_file queue w)))"
proof -
  let ?self = "\<lparr>self_output_dir = opt_output_dir opts, self_model_file = model_file,
                 self_config_file = ''temp_'' @ fmt_03d path @ ''_'' @ fmt_03d row
                                       @ ''.config''\<rparr>"
  let ?w1 = "w\<lparr>trace := trace w @ [PoolStart queue (opt_num_processors opts)]\<rparr>"
  let ?p0 = "start_pool queue (opt_num_processors opts) ?w1"
  let ?p1 = "foldl (\<lambda>q (i, m). worker_step (sceneBoostedRegression E ?self) i m q) ?p0
               (schedule E)"
  have a: "prefix (trace (shared ?p0)) (trace (shared ?p1))"
    by (rule schedule_grows) (rule scene_regression_grows)
  have b: "prefix (trace (shared ?p1))
             (trace (shared (drain (sceneBoostedRegression E ?self) ?p1)))"
    by (rule drain_grows) (rule scene_regression_grows)
  have "trace (shared ?p0) = trace w @ [PoolStart queue (opt_num_processors opts)]"
    by (simp add: start_pool_def)
  then show ?thesis
    using prefix_order.trans[OF a b] by (simp add: regression_pool_def run_pool_def Let_def)
qed

lemma package_stage_grows:
  "package_stage E mydir path row w = (r, w') \<Longrightarrow>
   prefix (trace w @ [System (''zip '' @ zip_file_name path row
              @ '' burned_area_* burn_count_* good_looks_count_* max_burn_prob_*'')])
     (trace w')"
  by (auto simp: package_stage_def Let_def split: if_splits dest!: chdir_return_grows)

lemma annual_stage_grows:
  assumes "annual_stage E opts mydir path row start_year end_year w = (r, w')"
  shows "prefix (trace w @ [AnnualBurnSummaries (opt_input_dir opts @ ''/input_stack.csv'')
             (opt_output_dir opts) (opt_output_dir opts) (opt_output_dir opts)
             (start_year + 1) end_year]) (trace w')"
  using assms
  by (auto simp: annual_stage_def Let_def split: if_splits prod.splits
        dest!: chdir_return_grows package_stage_grows
        intro: prefix_order.trans elim: prefix_order.trans[rotated])

lemma chdir_return_nodes:
  "chdir_return mydir status w = (r, w') \<Longrightarrow> nodes w' = nodes w"
  by (auto simp: chdir_return_def os_chdir_def split: if_splits)

lemma chdir_return_status:
  "chdir_return mydir status w = (Inr st, w') \<Longrightarrow> st = status"
  by (auto simp: chdir_return_def os_chdir_def split: if_splits)

lemma package_stage_success:
  assumes "package_stage E mydir path row w = (Inr SUCCESS, w')"
  shows "nodes w' (abspath (cwd w) (zip_file_name path row)) \<noteq> None"
proof -
  let ?cmd = "''zip '' @ zip_file_name path row
                @ '' burned_area_* burn_count_* good_looks_count_* max_burn_prob_*''"
  let ?w1 = "w\<lparr>nodes := os_system E ?cmd (cwd w) (nodes w), trace := trace w @ [System ?cmd]\<rparr>"
  have r: "(if \<not> os_path_exists ?w1 (zip_file_name path row)
                                 then chdir_return mydir ERROR ?w1
                                 else chdir_return mydir SUCCESS ?w1) = (Inr SUCCESS, w')"
    using assms unfolding package_stage_def Let_def .
  have ex: "os_path_exists ?w1 (zip_file_name path row)"
  proof (rule ccontr)
    assume "\<not> os_path_exists ?w1 (zip_file_name path row)"
    then have "chdir_return mydir ERROR ?w1 = (Inr SUCCESS, w')" using r by simp
    from chdir_return_status[OF this] show False using status_distinct by simp
  qed
  then have "chdir_return mydir SUCCESS ?w1 = (Inr SUCCESS, w')" using r by simp
  from chdir_return_nodes[OF this] have "nodes w' = nodes ?w1" .
  then show ?thesis using ex by (simp add: os_path_exists_def)
qed

lemma annual_stage_success:
  assumes "annual_stage E opts mydir path row start_year end_year w = (Inr SUCCESS, w')"
  shows "nodes w' (abspath (cwd w) (zip_file_name path row)) \<noteq> None"
proof -
  obtain st nd where c: "runAnnualBurnSummaries E (opt_input_dir opts @ ''/input_stack.csv'')
        (opt_output_dir opts) (opt_output_dir opts) (opt_output_dir opts)
        (start_year + 1) end_year (cwd w) (nodes w) = (st, nd)"
    by (metis prod.collapse)
  let ?w1 = "w\<lparr>nodes := nd, trace := trace w @ [AnnualBurnSummaries
        (opt_input_dir opts @ ''/input_stack.csv'') (opt_output_dir opts) (opt_output_dir opts)
        (opt_output_dir opts) (start_year + 1) end_year]\<rparr>"
  have r: "(if st \<noteq> SUCCESS then chdir_return mydir ERROR ?w1
                                 else package_stage E mydir path row ?w1) = (Inr SUCCESS, w')"
    using assms unfolding annual_stage_def Let_def c prod.case .
  have "st = SUCCESS"
  proof (rule ccontr)
    assume "st \<noteq> SUCCESS"
    then have "chdir_return mydir ERROR ?w1 = (Inr SUCCESS, w')" using r by simp
    from chdir_return_status[OF this] show False using status_distinct by simp
  qed
  then have "package_stage E mydir path row ?w1 = (Inr SUCCESS, w')" using r by simp
  from package_stage_success[OF this] show ?thesis by simp
qed

lemma threshold_stage_success:
  assumes "threshold_stage E opts mydir path row start_year end_year w = (Inr SUCCESS, w')"
  shows "nodes w' (abspath (cwd w) (zip_file_name path row)) \<noteq> None"
proof -
  obtain st nd where c: "runBurnThreshold E (opt_input_dir opts @ ''/input_stack.csv'')
        (opt_output_dir opts) (opt_output_dir opts) (start_year + 1) end_year
        (opt_num_processors opts) (cwd w) (nodes w) = (st, nd)"
    by (metis prod.collapse)
  let ?w1 = "w\<lparr>nodes := nd, trace := trace w @ [BurnThreshold
        (opt_input_dir opts @ ''/input_stack.csv'') (opt_output_dir opts) (opt_output_dir opts)
        (start_year + 1) end_year (opt_num_processors opts)]\<rparr>"
  have r: "(if st \<noteq> SUCCESS then chdir_return mydir ERROR ?w1
                                 else annual_stage E opts mydir path row start_year end_year ?w1) = (Inr SUCCESS, w')"
    using assms unfolding threshold_stage_def Let_def c prod.case .
  have "st = SUCCESS"
  proof (rule ccontr)
    assume "st \<noteq> SUCCESS"
    then have "chdir_return mydir ERROR ?w1 = (Inr SUCCESS, w')" using r by simp
    from chdir_return_status[OF this] show False using status_distinct by simp
  qed
  then have "annual_stage E opts mydir path row start_year end_year ?w1 = (Inr SUCCESS, w')"
    using r by simp
  from annual_stage_success[OF this] show ?thesis by simp
qed

lemma threshold_stage_events:
  assumes run: "threshold_stage E opts mydir path row start_year end_year w = (r, w')"
    and thr: "runBurnThreshold E (opt_input_dir opts @ ''/input_stack.csv'')
                (opt_output_dir opts) (opt_output_dir opts) (start_year + 1) end_year
                (opt_num_processors opts) (cwd w) (nodes w) = (st1, nd1)"
    and ann: "runAnnualBurnSummaries E (opt_input_dir opts @ ''/input_stack.csv'')
                (opt_output_dir opts) (opt_output_dir opts) (opt_output_dir opts)
                (start_year + 1) end_year (cwd w) nd1 = (st2, nd2)"
  shows "prefix (trace w @ [BurnThreshold (opt_input_dir opts @ ''/input_stack.csv'')
             (opt_output_dir opts) (opt_output_dir opts) (start_year + 1) end_year
             (opt_num_processors opts)]) (trace w')"
    and "st1 = SUCCESS \<Longrightarrow>
         prefix (trace w @ [BurnThreshold (opt_input_dir opts @ ''/input_stack.csv'')
             (opt_output_dir opts) (opt_output_dir opts) (start_year + 1) end_year
             (opt_num_processors opts),
           AnnualBurnSummaries (opt_input_dir opts @ ''/input_stack.csv'')
             (opt_output_dir opts) (opt_output_dir opts) (opt_output_dir opts)
             (start_year + 1) end_year]) (trace w')"
    and "st1 = SUCCESS \<Longrightarrow> st2 = SUCCESS \<Longrightarrow>
         prefix (trace w @ [BurnThreshold (opt_input_dir opts @ ''/input_stack.csv'')
             (opt_output_dir opts) (opt_output_dir opts) (start_year + 1) end_year
             (opt_num_processors opts),
           AnnualBurnSummaries (opt_input_dir opts @ ''/input_stack.csv'')
             (opt_output_dir opts) (opt_output_dir opts) (opt_output_dir opts)
             (start_year + 1) end_year,
           System (''zip '' @ zip_file_name path row
              @ '' burned_area_* burn_count_* good_looks_count_* max_burn_prob_*'')])
           (trace w')"
proof -
  let ?BT = "BurnThreshold (opt_input_dir opts @ ''/input_stack.csv'')
             (opt_output_dir opts) (opt_output_dir opts) (start_year + 1) end_year
             (opt_num_processors opts)"
  let ?ABS = "AnnualBurnSummaries (opt_input_dir opts @ ''/input_stack.csv'')
             (opt_output_dir opts) (opt_output_dir opts) (opt_output_dir opts)
             (start_year + 1) end_year"
  let ?ZIP = "System (''zip '' @ zip_file_name path row
              @ '' burned_area_* burn_count_* good_looks_count_* max_burn_prob_*'')"
  let ?w1 = "w\<lparr>nodes := nd1, trace := trace w @ [?BT]\<rparr>"
  let ?w2 = "?w1\<lparr>nodes := nd2, trace := trace ?w1 @ [?ABS]\<rparr>"
  have r1: "(r, w') = (if st1 \<noteq> SUCCESS then chdir_return mydir ERROR ?w1
                       else annual_stage E opts mydir path row start_year end_year ?w1)"
    using run thr by (simp add: threshold_stage_def Let_def)
  show 1: "prefix (trace w @ [?BT]) (trace w')"
  proof (cases "st1 = SUCCESS")
    case True
    then have "annual_stage E opts mydir path row start_year end_year ?w1 = (r, w')"
      using r1 by simp
    from annual_stage_grows[OF this] show ?thesis
      by (auto elim: prefix_order.trans[rotated])
  next
    case False
    then have "chdir_return mydir ERROR ?w1 = (r, w')" using r1 by simp
    from chdir_return_grows[OF this] show ?thesis by simp
  qed
  have r2: "(r, w') = (if st2 \<noteq> SUCCESS then chdir_return mydir ERROR ?w2
                       else package_stage E mydir path row ?w2)" if "st1 = SUCCESS"
    using r1 that ann by (simp add: annual_stage_def Let_def)
  show 2: "prefix (trace w @ [?BT, ?ABS]) (trace w')" if s1: "st1 = SUCCESS"
  proof (cases "st2 = SUCCESS")
    case True
    then have "package_stage E mydir path row ?w2 = (r, w')" using r2[OF s1] by simp
    from package_stage_grows[OF this] show ?thesis
      by (auto elim: prefix_order.trans[rotated])
  next
    case False
    then have "chdir_return mydir ERROR ?w2 = (r, w')" using r2[OF s1] by simp
    from chdir_return_grows[OF this] show ?thesis by simp
  qed
  show "prefix (trace w @ [?BT, ?ABS, ?ZIP]) (trace w')"
    if s1: "st1 = SUCCESS" and s2: "st2 = SUCCESS"
  proof -
    have "package_stage E mydir path row ?w2 = (r, w')" using r2[OF s1] s2 by simp
    from package_stage_grows[OF this] show ?thesis by simp
  qed
qed

subsection \<open>Three-digit formatting\<close>

lemma char_of_48: "char_of (48::nat) = CHR ''0''"
  by code_simp

lemma nat_digits_3:
  assumes "n < 1000"
  shows "fmt_03d (int n)
           = [char_of (48 + n div 100), char_of (48 + n div 10 mod 10), char_of (48 + n mod 10)]"
proof -
  consider "n < 10" | "10 \<le> n \<and> n < 100" | "100 \<le> n \<and> n < 1000"
    using assms by linarith
  then show ?thesis
  proof cases
    case 1
    then show ?thesis
      by (simp add: fmt_03d_def nat_digits.simps[of n] numeral_2_eq_2 char_of_48)
  next
    case 2
    then have "n div 10 < 10" "n div 100 = 0" by auto
    then show ?thesis
      using 2
      by (simp add: fmt_03d_def nat_digits.simps[of n] nat_digits.simps[of "n div 10"]
            char_of_48)
  next
    case 3
    then have a: "n div 10 \<ge> 10" "n div 10 div 10 < 10" "n div 10 div 10 = n div 100"
      by (auto simp: div_mult2_eq)
    then show ?thesis
      using 3
      by (simp add: fmt_03d_def nat_digits.simps[of n] nat_digits.simps[of "n div 10"]
            nat_digits.simps[of "n div 100"])
  qed
qed


lemma digit_char: "k < 10 \<Longrightarrow> is_digit (char_of (48 + k)) \<and> digit_val (char_of (48 + k)) = int k"
  by (simp add: is_digit_def digit_val_def)

lemma hundreds_tens_units:
  "((m::nat) div 100) * 100 + (m div 10 mod 10) * 10 + (m mod 10) = m"
proof -
  have a: "m div 10 * 10 + m mod 10 = m" by simp
  have b: "m div 10 div 10 * 10 + m div 10 mod 10 = m div 10" by simp
  have c: "m div 10 div 10 = m div 100" by (simp add: div_mult2_eq)
  define q where "q = m div 10"
  define r where "r = m mod 10"
  define h where "h = m div 100"
  define t where "t = m div 10 mod 10"
  have a': "q * 10 + r = m" using a by (simp add: q_def r_def)
  have b': "h * 10 + t = q" using b c by (simp add: q_def h_def t_def)
  have "h * 100 + t * 10 + r = m" using a' b' by simp
  then show ?thesis by (simp add: h_def t_def r_def)
qed

lemma fmt_03d_padded:
  assumes "0 \<le> n" and "n < 1000"
  shows "length (fmt_03d n) = 3 \<and> list_all is_digit (fmt_03d n) \<and> digits_val (fmt_03d n) = n"
proof -
  define m where "m = nat n"
  have m: "n = int m" "m < 1000" using assms by (simp_all add: m_def)
  have d: "m div 100 < 10" "m div 10 mod 10 < 10" "m mod 10 < 10" using m by auto
  have v': "int (m div 100) * 100 + int (m div 10 mod 10) * 10 + int (m mod 10) = int m"
    using arg_cong[OF hundreds_tens_units[of m], of int] by simp
  have f: "fmt_03d n = [char_of (48 + m div 100), char_of (48 + m div 10 mod 10),
                        char_of (48 + m mod 10)]"
    unfolding m(1) by (rule nat_digits_3[OF m(2)])
  have "digits_val (fmt_03d n)
          = int (m div 100) * 100 + int (m div 10 mod 10) * 10 + int (m mod 10)"
    unfolding f using digit_char[OF d(1)] digit_char[OF d(2)] digit_char[OF d(3)]
    by (simp add: digits_val_def)
  then have "digits_val (fmt_03d n) = n" using v' m(1) by simp
  moreover have "length (fmt_03d n) = 3" unfolding f by simp
  moreover have "list_all is_digit (fmt_03d n)"
    unfolding f using digit_char[OF d(1)] digit_char[OF d(2)] digit_char[OF d(3)] by simp
  ultimately show ?thesis by blast
qed

subsection \<open>The stages after the resolver\<close>

lemma package_stage_status:
  "package_stage E mydir path row w = (Inr st, w') \<Longrightarrow> st = ERROR \<or> st = SUCCESS"
  by (auto simp: package_stage_def Let_def split: if_splits dest: chdir_return_status)

lemma annual_stage_status:
  "annual_stage E opts mydir path row start_year end_year w = (Inr st, w') \<Longrightarrow>
   st = ERROR \<or> st = SUCCESS"
  by (auto simp: annual_stage_def Let_def split: if_splits prod.splits
        dest: chdir_return_status package_stage_status)

lemma threshold_stage_status:
  "threshold_stage E opts mydir path row start_year end_year w = (Inr st, w') \<Longrightarrow>
   st = ERROR \<or> st = SUCCESS"
  by (auto simp: threshold_stage_def Let_def split: if_splits prod.splits
        dest: chdir_return_status annual_stage_status)

lemma threshold_stage_grows:
  assumes "threshold_stage E opts mydir path row start_year end_year w = (r, w')"
  shows "prefix (trace w) (trace w')"
proof -
  obtain st1 nd1 where thr: "runBurnThreshold E (opt_input_dir opts @ ''/input_stack.csv'')
                (opt_output_dir opts) (opt_output_dir opts) (start_year + 1) end_year
                (opt_num_processors opts) (cwd w) (nodes w) = (st1, nd1)"
    by (metis prod.collapse)
  obtain st2 nd2 where ann: "runAnnualBurnSummaries E (opt_input_dir opts @ ''/input_stack.csv'')
                (opt_output_dir opts) (opt_output_dir opts) (opt_output_dir opts)
                (start_year + 1) end_year (cwd w) nd1 = (st2, nd2)"
    by (metis prod.collapse)
  from threshold_stage_events(1)[OF assms thr ann] show ?thesis
    by (auto elim: prefix_order.trans[rotated])
qed

lemma regression_stage_grows:
  assumes loaded: "load_work_queue start_year sr_list [] 0 = Inr (queue, k)"
    and run: "regression_stage E opts mydir path row start_year end_year model_file sr_list w
                = (r, w')"
  shows "prefix (trace w @ [PoolStart queue (opt_num_processors opts)]) (trace w')"
proof -
  let ?p = "regression_pool E opts path row model_file queue w"
  have pool: "prefix (trace w @ [PoolStart queue (opt_num_processors opts)])
                (trace (shared ?p))"
    by (rule regression_pool_grows)
  have "prefix (trace (shared ?p)) (trace w')"
    using run loaded
    by (auto simp: regression_stage_def Let_def split: sum.splits if_splits
          dest: threshold_stage_grows)
  then show ?thesis using pool prefix_order.trans by blast
qed

lemma load_work_queue_filter:
  "load_work_queue start_year ls q n = Inr (q', n') \<Longrightarrow>
   q' = q @ [x \<leftarrow> map (rstrip [newline]) ls. xml_year x \<noteq> Inr start_year]
   \<and> n' = n + length [x \<leftarrow> map (rstrip [newline]) ls. xml_year x \<noteq> Inr start_year]"
proof (induction ls arbitrary: q n)
  case Nil
  then show ?case by simp
next
  case (Cons l ls)
  from Cons.prems obtain year where
    y: "xml_year (rstrip [newline] l) = Inr year"
    by (auto simp: Let_def xml_year_def split: sum.splits)
  show ?case
  proof (cases "year = start_year")
    case True
    then have "load_work_queue start_year ls q n = Inr (q', n')"
      using Cons.prems y by (simp add: Let_def xml_year_def)
    from Cons.IH[OF this] show ?thesis using y True by simp
  next
    case False
    then have "load_work_queue start_year ls (q @ [rstrip [newline] l]) (Suc n) = Inr (q', n')"
      using Cons.prems y by (simp add: Let_def xml_year_def)
    from Cons.IH[OF this] show ?thesis using y False by simp
  qed
qed

text \<open>
  Claim C5. When the seasonal summaries succeed and leave a non-empty
  \<^verbatim>\<open>input_list.txt\<close>, the work queue of the regression pool is made of the lines of
  that file (not of the scene list the driver was started with): it holds, in order
  and each as often as listed, exactly the listed files whose year differs from
  \<open>start_year\<close>, \<^verbatim>\<open>num_boosted_scenes\<close> is its length, and the pool is started on it.
\<close>

theorem work_queue_from_filtered_list:
  assumes stack: "processStack E (opt_input_dir opts) (opt_num_processors opts)
                    (opt_delete_src opts) (cwd w) (nodes w) = (SUCCESS, nd)"
    and w1: "w1 = w\<lparr>nodes := nd,
                     trace := trace w @ [ProcessStack (opt_input_dir opts)
                                (opt_num_processors opts) (opt_delete_src opts)]\<rparr>"
    and filtered: "readlines w1 ''input_list.txt'' = Inr filtered"
    and nonempty: "filtered \<noteq> []"
    and model: "os_path_exists w1 (opt_model_dir opts @ ''/'' @ get_model_name E path row)"
    and loaded: "load_work_queue start_year filtered [] 0 = Inr (queue, k)"
  shows "queue = [x \<leftarrow> map (rstrip [newline]) filtered. xml_year x \<noteq> Inr start_year]
       \<and> k = length queue
       \<and> count (mset queue) x
           = (if xml_year x = Inr start_year then 0
              else count (mset (map (rstrip [newline]) filtered)) x)
       \<and> prefix (trace w @ [ProcessStack (opt_input_dir opts) (opt_num_processors opts)
                               (opt_delete_src opts),
                             PoolStart queue (opt_num_processors opts)])
           (trace (snd (seasonal_stage E opts mydir path row start_year end_year w)))"
proof -
  have q: "queue = [x \<leftarrow> map (rstrip [newline]) filtered. xml_year x \<noteq> Inr start_year]"
    and k: "k = length queue"
    using load_work_queue_filter[OF loaded] by simp_all
  have c: "count (mset queue) x
           = (if xml_year x = Inr start_year then 0
              else count (mset (map (rstrip [newline]) filtered)) x)"
    unfolding q by (simp add: mset_filter)
  let ?mf = "opt_model_dir opts @ ''/'' @ get_model_name E path row"
  have s: "seasonal_stage E opts mydir path row start_year end_year w
             = regression_stage E opts mydir path row start_year end_year ?mf filtered w1"
    using stack filtered nonempty model
    by (simp add: seasonal_stage_def model_lookup_def Let_def w1[symmetric])
  have "prefix (trace w1 @ [PoolStart queue (opt_num_processors opts)])
          (trace (snd (regression_stage E opts mydir path row start_year end_year ?mf
                         filtered w1)))"
    using regression_stage_grows[OF loaded] by (metis prod.collapse)
  then have p: "prefix (trace w @ [ProcessStack (opt_input_dir opts) (opt_num_processors opts)
                               (opt_delete_src opts),
                             PoolStart queue (opt_num_processors opts)])
           (trace (snd (seasonal_stage E opts mydir path row start_year end_year w)))"
    unfolding s by (simp add: w1)
  show ?thesis using q k c p by blast
qed

theorem work_queue_from_filtered_list_witness:
  "fst (processStack env_ex (opt_input_dir options_ex) (opt_num_processors options_ex)
          (opt_delete_src options_ex) (cwd world_out) (nodes world_out)) = SUCCESS
   \<and> load_work_queue 2001 [scene_2001 @ [newline], scene_2002 @ [newline]] [] 0
       = Inr ([scene_2002], 1)
   \<and> [scene_2002]
       = [x \<leftarrow> map (rstrip [newline]) [scene_2001 @ [newline], scene_2002 @ [newline]].
            xml_year x \<noteq> Inr 2001]
   \<and> prefix ([ProcessStack ''/in'' 1 False, PoolStart [scene_2002] 1])
        (trace (snd (seasonal_stage env_ex options_ex ''/home'' 35 32 2001 2002 world_out)))"
proof -
  let ?nd = "snd (processStack env_ex (opt_input_dir options_ex)
                    (opt_num_processors options_ex) (opt_delete_src options_ex)
                    (cwd world_out) (nodes world_out))"
  let ?filtered = "[scene_2001 @ [newline], scene_2002 @ [newline]]"
  have ok: "fst (processStack env_ex (opt_input_dir options_ex)
                   (opt_num_processors options_ex) (opt_delete_src options_ex)
                   (cwd world_out) (nodes world_out)) = SUCCESS"
    by (simp add: env_ex_def)
  then have stack: "processStack env_ex (opt_input_dir options_ex)
                      (opt_num_processors options_ex) (opt_delete_src options_ex)
                      (cwd world_out) (nodes world_out) = (SUCCESS, ?nd)"
    by (metis prod.collapse)
  have filtered: "readlines (world_out\<lparr>nodes := ?nd,
                     trace := trace world_out @ [ProcessStack (opt_input_dir options_ex)
                                (opt_num_processors options_ex) (opt_delete_src options_ex)]\<rparr>)
                    ''input_list.txt'' = Inr ?filtered"
    by code_simp
  have nonempty: "?filtered \<noteq> []" by simp
  have model: "os_path_exists (world_out\<lparr>nodes := ?nd,
                     trace := trace world_out @ [ProcessStack (opt_input_dir options_ex)
                                (opt_num_processors options_ex) (opt_delete_src options_ex)]\<rparr>)
                 (opt_model_dir options_ex @ ''/'' @ get_model_name env_ex 35 32)"
    by code_simp
  have loaded: "load_work_queue 2001 ?filtered [] 0 = Inr ([scene_2002], 1)"
    by code_simp
  have t: "trace world_out = []" by code_simp
  have o: "opt_input_dir options_ex = ''/in''" "opt_num_processors options_ex = 1"
    "opt_delete_src options_ex = False"
    by (simp_all add: options_ex_def)
  note inst = work_queue_from_filtered_list[OF stack refl filtered nonempty model loaded,
      where mydir = "''/home''" and end_year = 2002]
  have 1: "[scene_2002]
       = [x \<leftarrow> map (rstrip [newline]) ?filtered. xml_year x \<noteq> Inr 2001]"
    using inst by blast
  have "prefix (trace world_out @ [ProcessStack (opt_input_dir options_ex)
                   (opt_num_processors options_ex) (opt_delete_src options_ex),
                 PoolStart [scene_2002] (opt_num_processors options_ex)])
          (trace (snd (seasonal_stage env_ex options_ex ''/home'' 35 32 2001 2002 world_out)))"
    using inst by blast
  then have 2: "prefix ([ProcessStack ''/in'' 1 False, PoolStart [scene_2002] 1])
        (trace (snd (seasonal_stage env_ex options_ex ''/home'' 35 32 2001 2002 world_out)))"
    unfolding t o by simp
  show ?thesis using ok loaded 1 2 by blast
qed

text \<open>
  Claim C7. In a run in which the regression stage succeeds (the queue was loaded and
  the driver took \<open>SUCCESS\<close> for every queued scene), the next call is the thresholding
  subsystem with the year range \<open>start_year + 1\<close> to \<open>end_year\<close>; when it returns
  \<open>SUCCESS\<close> the annual summaries are called with the same range; when they return
  \<open>SUCCESS\<close> the shell is asked to zip into \<^verbatim>\<open>burned_area_<path>_<row>.zip\<close>, path
  and row written with three digits (zero-padded for values from 0 to 999); the run
  returns \<open>SUCCESS\<close> only if that file exists afterwards, and a status returned
  without it is \<open>ERROR\<close>.
\<close>

theorem stages_after_regression:
  assumes loaded: "load_work_queue start_year sr_list [] 0 = Inr (queue, k)"
    and succeeded:
      "fst (collect_results k
              (result_queue (regression_pool E opts path row model_file queue w)))
         = Inr SUCCESS"
    and w2: "w2 = shared (regression_pool E opts path row model_file queue w)"
    and final: "final = regression_stage E opts mydir path row start_year end_year
                          model_file sr_list w"
    and thr: "runBurnThreshold E (opt_input_dir opts @ ''/input_stack.csv'')
                (opt_output_dir opts) (opt_output_dir opts) (start_year + 1) end_year
                (opt_num_processors opts) (cwd w2) (nodes w2) = (st1, nd1)"
    and ann: "runAnnualBurnSummaries E (opt_input_dir opts @ ''/input_stack.csv'')
                (opt_output_dir opts) (opt_output_dir opts) (opt_output_dir opts)
                (start_year + 1) end_year (cwd w2) nd1 = (st2, nd2)"
  shows "prefix (trace w2 @ [BurnThreshold (opt_input_dir opts @ ''/input_stack.csv'')
             (opt_output_dir opts) (opt_output_dir opts) (start_year + 1) end_year
             (opt_num_processors opts)]) (trace (snd final))
       \<and> (st1 = SUCCESS \<longrightarrow>
            prefix (trace w2 @ [BurnThreshold (opt_input_dir opts @ ''/input_stack.csv'')
                (opt_output_dir opts) (opt_output_dir opts) (start_year + 1) end_year
                (opt_num_processors opts),
              AnnualBurnSummaries (opt_input_dir opts @ ''/input_stack.csv'')
                (opt_output_dir opts) (opt_output_dir opts) (opt_output_dir opts)
                (start_year + 1) end_year]) (trace (snd final)))
       \<and> (st1 = SUCCESS \<and> st2 = SUCCESS \<longrightarrow>
            prefix (trace w2 @ [BurnThreshold (opt_input_dir opts @ ''/input_stack.csv'')
                (opt_output_dir opts) (opt_output_dir opts) (start_year + 1) end_year
                (opt_num_processors opts),
              AnnualBurnSummaries (opt_input_dir opts @ ''/input_stack.csv'')
                (opt_output_dir opts) (opt_output_dir opts) (opt_output_dir opts)
                (start_year + 1) end_year,
              System (''zip '' @ zip_file_name path row
                 @ '' burned_area_* burn_count_* good_looks_count_* max_burn_prob_*'')])
              (trace (snd final)))
       \<and> (fst final = Inr SUCCESS \<longrightarrow>
            nodes (snd final) (abspath (cwd w2) (zip_file_name path row)) \<noteq> None)
       \<and> (fst final = Inr st
              \<and> nodes (snd final) (abspath (cwd w2) (zip_file_name path row)) = None \<longrightarrow>
            st = ERROR)
       \<and> zip_file_name path row
           = ''burned_area_'' @ fmt_03d path @ ''_'' @ fmt_03d row @ ''.zip''
       \<and> (0 \<le> path \<and> path < 1000 \<and> 0 \<le> row \<and> row < 1000 \<longrightarrow>
            length (fmt_03d path) = 3 \<and> list_all is_digit (fmt_03d path)
            \<and> digits_val (fmt_03d path) = path
            \<and> length (fmt_03d row) = 3 \<and> list_all is_digit (fmt_03d row)
            \<and> digits_val (fmt_03d row) = row)"
proof -
  have run: "threshold_stage E opts mydir path row start_year end_year w2 = (fst final, snd final)"
    using loaded succeeded by (simp add: final regression_stage_def Let_def w2)
  note ev = threshold_stage_events[OF run thr ann]
  have zip: "fst final = Inr SUCCESS \<Longrightarrow>
             nodes (snd final) (abspath (cwd w2) (zip_file_name path row)) \<noteq> None"
    using threshold_stage_success[of E opts mydir path row start_year end_year w2 "snd final"]
      run by simp
  have err: "st = ERROR"
    if "fst final = Inr st"
      and "nodes (snd final) (abspath (cwd w2) (zip_file_name path row)) = None"
    using threshold_stage_status[of E opts mydir path row start_year end_year w2 st "snd final"]
      run that zip by auto
  show ?thesis
    using ev zip err fmt_03d_padded[of path] fmt_03d_padded[of row]
      zip_file_name_def[of path row]
    by blast
qed

theorem stages_after_regression_witness:
  "load_work_queue 2001 [scene_2001 @ [newline]] [] 0 = Inr ([], 0)
   \<and> fst (collect_results 0
            (result_queue (regression_pool env_ex options_ex 35 32 ''/models/m.xml'' []
                             world_out))) = Inr SUCCESS
   \<and> prefix ([PoolStart [] 1,
               BurnThreshold ''/in/input_stack.csv'' ''/out'' ''/out'' 2002 2002 1,
               AnnualBurnSummaries ''/in/input_stack.csv'' ''/out'' ''/out'' ''/out'' 2002 2002,
               System (''zip '' @ zip_file_name 35 32
                 @ '' burned_area_* burn_count_* good_looks_count_* max_burn_prob_*'')])
        (trace (snd (regression_stage env_ex options_ex ''/home'' 35 32 2001 2002
                       ''/models/m.xml'' [scene_2001 @ [newline]] world_out)))
   \<and> zip_file_name 35 32 = ''burned_area_035_032.zip''
   \<and> fst (regression_stage env_ex options_ex ''/home'' 35 32 2001 2002
             ''/models/m.xml'' [scene_2001 @ [newline]] world_out) = Inr SUCCESS"
proof -
  let ?sr = "[scene_2001 @ [newline]]"
  let ?p = "regression_pool env_ex options_ex 35 32 ''/models/m.xml'' [] world_out"
  let ?final = "regression_stage env_ex options_ex ''/home'' 35 32 2001 2002
                  ''/models/m.xml'' ?sr world_out"
  have loaded: "load_work_queue 2001 ?sr [] 0 = Inr ([], 0)" by code_simp
  have succeeded: "fst (collect_results 0 (result_queue ?p)) = Inr SUCCESS" by simp
  have thr: "runBurnThreshold env_ex (opt_input_dir options_ex @ ''/input_stack.csv'')
                (opt_output_dir options_ex) (opt_output_dir options_ex) (2001 + 1) 2002
                (opt_num_processors options_ex) (cwd (shared ?p)) (nodes (shared ?p))
              = (SUCCESS, nodes (shared ?p))"
    by (simp add: env_ex_def)
  have ann: "runAnnualBurnSummaries env_ex (opt_input_dir options_ex @ ''/input_stack.csv'')
                (opt_output_dir options_ex) (opt_output_dir options_ex)
                (opt_output_dir options_ex) (2001 + 1) 2002 (cwd (shared ?p))
                (nodes (shared ?p))
              = (SUCCESS, nodes (shared ?p))"
    by (simp add: env_ex_def)
  have t: "trace (shared ?p) = [PoolStart [] 1]" by code_simp
  have o: "opt_input_dir options_ex = ''/in''" "opt_num_processors options_ex = 1"
    "opt_output_dir options_ex = ''/out''"
    by (simp_all add: options_ex_def)
  have z: "zip_file_name 35 32 = ''burned_area_035_032.zip''" by code_simp
  have finished: "fst ?final = Inr SUCCESS" by code_simp
  note inst = stages_after_regression[OF loaded succeeded refl refl thr ann]
  have "prefix (trace (shared ?p)
                 @ [BurnThreshold (opt_input_dir options_ex @ ''/input_stack.csv'')
                      (opt_output_dir options_ex) (opt_output_dir options_ex) (2001 + 1) 2002
                      (opt_num_processors options_ex),
                    AnnualBurnSummaries (opt_input_dir options_ex @ ''/input_stack.csv'')
                      (opt_output_dir options_ex) (opt_output_dir options_ex)
                      (opt_output_dir options_ex) (2001 + 1) 2002,
                    System (''zip '' @ zip_file_name 35 32
                      @ '' burned_area_* burn_count_* good_looks_count_* max_burn_prob_*'')])
          (trace (snd ?final))"
    using inst by blast
  then have 1: "prefix ([PoolStart [] 1,
               BurnThreshold ''/in/input_stack.csv'' ''/out'' ''/out'' 2002 2002 1,
               AnnualBurnSummaries ''/in/input_stack.csv'' ''/out'' ''/out'' ''/out'' 2002 2002,
               System (''zip '' @ zip_file_name 35 32
                 @ '' burned_area_* burn_count_* good_looks_count_* max_burn_prob_*'')])
        (trace (snd ?final))"
    unfolding t o by simp
  show ?thesis using loaded succeeded 1 z finished by blast
qed

subsection \<open>The worker pool\<close>


















subsection \<open>Returns that leave the descriptor or the working directory behind\<close>

lemma return_global_unbound:
  "return_global do_boosted_regression_globals name w = (Inl NameError, w)"
  by (simp add: return_global_def do_boosted_regression_globals_def)

lemma boosted_regression_never_returns:
  "fst (runBoostedRegression E config_file usebin w) \<noteq> Inr status"
  by (auto simp: runBoostedRegression_def return_global_unbound chdir_return_global_def
        Let_def
        split: option.splits sum.splits prod.splits exe_outcome.splits)

text \<open>
  Claim C10, at a config directory that is not writable and at an executable that exits
  with status 2 or 0: \<open>runBoostedRegression\<close> raises \<^verbatim>\<open>NameError\<close> in all three runs
  instead of returning a status. The first raise comes before any change of directory;
  in the other two the working directory has been changed to the directory of the
  config file for the executable and changed back before the raise.
\<close>

theorem regression_raises_NameError_evaluation:
  "fst (runBoostedRegression (env_ex\<lparr>writable := (\<lambda>p. False)\<rparr>)
          ''/in/config/job.config'' False world_job) = Inl NameError
   \<and> trace (snd (runBoostedRegression (env_ex\<lparr>writable := (\<lambda>p. False)\<rparr>)
                   ''/in/config/job.config'' False world_job)) = []
   \<and> fst (runBoostedRegression env_exit_2 ''/in/config/job.config'' False world_job)
       = Inl NameError
   \<and> cwd (snd (runBoostedRegression env_exit_2 ''/in/config/job.config'' False world_job))
       = ''/home''
   \<and> fst (runBoostedRegression env_ex ''/in/config/job.config'' False world_job)
       = Inl NameError
   \<and> cwd (snd (runBoostedRegression env_ex ''/in/config/job.config'' False world_job))
       = ''/home''
   \<and> trace (snd (runBoostedRegression env_ex ''/in/config/job.config'' False world_job))
       = [Chdir ''/in/config'',
          Exec [''predict_burned_area'', ''--config_file'', ''/in/config/job.config'',
                ''--verbose''],
          Chdir ''/home'']"
  by code_simp

text \<open>
  Claim C3, at the 2002 scene of the concrete stack with an executable that exits with
  status 2: the job writes its descriptor, does not return a status (the
  \<^verbatim>\<open>NameError\<close> of \<open>runBoostedRegression\<close> passes through it), never calls
  \<^verbatim>\<open>os.remove\<close>, and the descriptor is still a file when the job has ended. The same
  happens when the executable exits with status 0.
\<close>

theorem descriptor_left_behind_evaluation:
  "fst (sceneBoostedRegression env_exit_2 self_ex scene_2002 world_out) = Inl NameError
   \<and> os_path_isfile (snd (sceneBoostedRegression env_exit_2 self_ex scene_2002 world_out))
        ''/in/config/tempXq3k9atemp_035_032.config''
   \<and> trace (snd (sceneBoostedRegression env_exit_2 self_ex scene_2002 world_out))
       = [Makedirs ''/in/config'' mode_0755, Chdir ''/in/config'',
          Exec [''predict_burned_area'', ''--config_file'',
                ''/in/config/tempXq3k9atemp_035_032.config'', ''--verbose''],
          Chdir ''/out'']
   \<and> fst (sceneBoostedRegression env_ex self_ex scene_2002 world_out) = Inl NameError
   \<and> os_path_isfile (snd (sceneBoostedRegression env_ex self_ex scene_2002 world_out))
        ''/in/config/tempXq3k9atemp_035_032.config''"
  by code_simp

text \<open>
  Claim C1, at two runs started in \<^verbatim>\<open>/home\<close> with output directory \<^verbatim>\<open>/out\<close>: one
  whose model file does not exist (line 434), one whose only queued scene fails in the
  regression stage (line 481). Both return \<open>ERROR\<close> with the working directory still
  \<^verbatim>\<open>/out\<close>; the only change of directory the driver made is the one into \<^verbatim>\<open>/out\<close>.
\<close>

theorem cwd_not_restored_evaluation:
  "cwd world_ex = ''/home''
   \<and> fst (runBurnedArea env_no_model options_ex world_ex) = Inr ERROR
   \<and> cwd (snd (runBurnedArea env_no_model options_ex world_ex)) = ''/out''
   \<and> trace (snd (runBurnedArea env_no_model options_ex world_ex))
       = [Chdir ''/out'', ProcessStack ''/in'' 1 False]
   \<and> fst (runBurnedArea env_lists_2003 options_ex world_ex) = Inr ERROR
   \<and> cwd (snd (runBurnedArea env_lists_2003 options_ex world_ex)) = ''/out''
   \<and> trace (snd (runBurnedArea env_lists_2003 options_ex world_ex))
       = [Chdir ''/out'', ProcessStack ''/in'' 1 False, PoolStart [scene_2003] 1,
          Makedirs ''/in/config'' mode_0755]"
  by code_simp

end
